theory Spec2Isabelle
  imports Main
begin

section \<open>Strings\<close>

text \<open>
  A JavaScript string is a sequence of UTF-16 code units and \<open>.length\<close> counts them.
  Strings are therefore lists of code units (natural numbers); \<open>ascii\<close> lifts an ASCII
  literal.
\<close>

type_synonym jsstring = "nat list"

definition ascii :: "string \<Rightarrow> jsstring" where
  "ascii s = map of_char s"

section \<open>Analytics: rows read from the session store\<close>

text \<open>
  The analyses run over the rows their SQL query returns (ordered by \<open>ts\<close> ascending);
  the row list is the input of the model. \<open>rowId\<close> is the column \<open>id\<close>.
\<close>

record MessageRow =
  rowId :: int
  senderId :: int
  content :: jsstring
  ts :: int
  platformId :: jsstring
  name :: jsstring

text \<open>Insertion-ordered \<open>Map\<close>: an association list, new keys appended at the end.\<close>

fun mapHas :: "('k \<times> 'v) list \<Rightarrow> 'k \<Rightarrow> bool" where
  "mapHas [] k = False"
| "mapHas ((k', v) # m) k = (if k' = k then True else mapHas m k)"

fun mapGet :: "('k \<times> 'v) list \<Rightarrow> 'k \<Rightarrow> 'v option" where
  "mapGet [] k = None"
| "mapGet ((k', v) # m) k = (if k' = k then Some v else mapGet m k)"

fun mapSet :: "('k \<times> 'v) list \<Rightarrow> 'k \<Rightarrow> 'v \<Rightarrow> ('k \<times> 'v) list" where
  "mapSet [] k v = [(k, v)]"
| "mapSet ((k', v') # m) k v = (if k' = k then (k', v) # m else (k', v') # mapSet m k v)"

subsection \<open>Monologue analysis (getMonologueAnalysis)\<close>

record Streak =
  streakSenderId :: int
  streakCount :: nat
  startTs :: int
  lastTs :: int

record MemberStats =
  totalStreaks :: nat
  maxCombo :: nat
  lowStreak :: nat
  midStreak :: nat
  highStreak :: nat

record MaxCombo =
  comboMemberId :: int
  comboLength :: nat
  comboStartTs :: int

record MonologueState =
  memberInfo :: "(int \<times> jsstring \<times> jsstring) list"
  memberStats :: "(int \<times> MemberStats) list"
  globalMaxCombo :: "MaxCombo option"
  currentStreak :: Streak

definition MAX_INTERVAL :: int where
  "MAX_INTERVAL = 300"

definition newMemberStats :: MemberStats where
  "newMemberStats =
     \<lparr>totalStreaks = 0, maxCombo = 0, lowStreak = 0, midStreak = 0, highStreak = 0\<rparr>"

definition initialStreak :: Streak where
  "initialStreak = \<lparr>streakSenderId = - 1, streakCount = 0, startTs = 0, lastTs = 0\<rparr>"

definition initialMonologueState :: MonologueState where
  "initialMonologueState =
     \<lparr>memberInfo = [], memberStats = [], globalMaxCombo = None,
      currentStreak = initialStreak\<rparr>"

text \<open>The tier counters of one finished streak of \<open>n\<close> messages (\<open>n \<ge> 3\<close>).\<close>

definition bumpStats :: "nat \<Rightarrow> MemberStats \<Rightarrow> MemberStats" where
  "bumpStats n stats =
     (let stats1 = stats\<lparr>totalStreaks := totalStreaks stats + 1,
                           maxCombo := max (maxCombo stats) n\<rparr>
      in if n \<ge> 10 then stats1\<lparr>highStreak := highStreak stats1 + 1\<rparr>
         else if n \<ge> 5 then stats1\<lparr>midStreak := midStreak stats1 + 1\<rparr>
         else stats1\<lparr>lowStreak := lowStreak stats1 + 1\<rparr>)"

definition finishStreak :: "MonologueState \<Rightarrow> MonologueState" where
  "finishStreak st =
     (let cs = currentStreak st in
      if streakCount cs \<ge> 3 then
        (let memberId = streakSenderId cs;
             ms1 = (if \<not> mapHas (memberStats st) memberId
                    then memberStats st @ [(memberId, newMemberStats)]
                    else memberStats st);
             stats = (case mapGet ms1 memberId of Some s \<Rightarrow> s | None \<Rightarrow> newMemberStats);
             ms2 = mapSet ms1 memberId (bumpStats (streakCount cs) stats);
             record = \<lparr>comboMemberId = memberId, comboLength = streakCount cs,
                       comboStartTs = startTs cs\<rparr>;
             gm = (case globalMaxCombo st of
                     None \<Rightarrow> Some record
                   | Some g \<Rightarrow> if streakCount cs > comboLength g then Some record else Some g)
         in st\<lparr>memberStats := ms2, globalMaxCombo := gm\<rparr>)
      else st)"

definition monologueStep :: "MessageRow \<Rightarrow> MonologueState \<Rightarrow> MonologueState" where
  "monologueStep msg st0 =
     (let st = (if \<not> mapHas (memberInfo st0) (senderId msg)
                then st0\<lparr>memberInfo := memberInfo st0 @ [(senderId msg, platformId msg, name msg)]\<rparr>
                else st0);
          cs = currentStreak st;
          isSameSender = (senderId msg = streakSenderId cs);
          isWithinInterval = (ts msg - lastTs cs \<le> MAX_INTERVAL)
      in if isSameSender \<and> isWithinInterval
         then st\<lparr>currentStreak := cs\<lparr>streakCount := streakCount cs + 1, lastTs := ts msg\<rparr>\<rparr>
         else (finishStreak st)\<lparr>currentStreak :=
                \<lparr>streakSenderId = senderId msg, streakCount = 1,
                 startTs = ts msg, lastTs = ts msg\<rparr>\<rparr>)"

record MonologueRank =
  rankMemberId :: int
  rankPlatformId :: jsstring
  rankName :: jsstring
  rankStats :: MemberStats

record MonologueResult =
  rank :: "MonologueRank list"
  maxComboRecord :: "(MaxCombo \<times> jsstring \<times> jsstring) option"

definition memberInfoOf :: "(int \<times> jsstring \<times> jsstring) list \<Rightarrow> int \<Rightarrow> jsstring \<times> jsstring" where
  "memberInfoOf info memberId = (case mapGet info memberId of Some i \<Rightarrow> i | None \<Rightarrow> ([], []))"

text \<open>
  \<open>rank.sort((a, b) => b.totalStreaks - a.totalStreaks)\<close> is a stable sort, descending:
  the stable \<open>sort_key\<close> on the negated count.
\<close>

definition getMonologueAnalysis :: "MessageRow list \<Rightarrow> MonologueResult" where
  "getMonologueAnalysis messages =
     (if messages = [] then \<lparr>rank = [], maxComboRecord = None\<rparr>
      else
        (let st = finishStreak (fold monologueStep messages initialMonologueState);
             entries = map (\<lambda>(memberId, stats).
                         \<lparr>rankMemberId = memberId,
                          rankPlatformId = fst (memberInfoOf (memberInfo st) memberId),
                          rankName = snd (memberInfoOf (memberInfo st) memberId),
                          rankStats = stats\<rparr>) (memberStats st)
         in \<lparr>rank = sort_key (\<lambda>r. - int (totalStreaks (rankStats r))) entries,
             maxComboRecord =
               (case globalMaxCombo st of
                  None \<Rightarrow> None
                | Some g \<Rightarrow> Some (g, memberInfoOf (memberInfo st) (comboMemberId g)))\<rparr>))"

text \<open>The two message sequences of the monologue example: sender 1 is X, sender 2 is Y.\<close>

definition monoRow :: "int \<Rightarrow> int \<Rightarrow> int \<Rightarrow> MessageRow" where
  "monoRow i s t =
     \<lparr>rowId = i, senderId = s, content = ascii ''m'', ts = t,
      platformId = (if s = 1 then ascii ''X'' else ascii ''Y''),
      name = (if s = 1 then ascii ''X'' else ascii ''Y'')\<rparr>"

definition monologueExample1 :: "MessageRow list" where
  "monologueExample1 = [monoRow 1 1 0, monoRow 2 1 100, monoRow 3 1 200, monoRow 4 1 250]"

definition monologueExample2 :: "MessageRow list" where
  "monologueExample2 =
     [monoRow 1 1 0, monoRow 2 1 100, monoRow 5 2 120, monoRow 3 1 200, monoRow 4 1 250]"

subsection \<open>Repeat-chain analysis (getRepeatAnalysis)\<close>

text \<open>
  \<open>String.prototype.trim\<close> removes the ECMAScript white space and line terminator
  code units from both ends.
\<close>

definition isJsWhiteSpace :: "nat \<Rightarrow> bool" where
  "isJsWhiteSpace c =
     (c = 9 \<or> c = 10 \<or> c = 11 \<or> c = 12 \<or> c = 13 \<or> c = 32 \<or> c = 160 \<or> c = 5760
      \<or> (8192 \<le> c \<and> c \<le> 8202) \<or> c = 8232 \<or> c = 8233 \<or> c = 8239 \<or> c = 8287
      \<or> c = 12288 \<or> c = 65279)"

definition trim :: "jsstring \<Rightarrow> jsstring" where
  "trim s = rev (dropWhile isJsWhiteSpace (rev (dropWhile isJsWhiteSpace s)))"

record RepeatEntry =
  entrySenderId :: int
  entryContent :: jsstring
  entryTs :: int

record ContentStats =
  statCount :: nat
  maxChainLength :: nat
  originatorId :: int
  statLastTs :: int

record RepeatState =
  originatorCount :: "(int \<times> nat) list"
  initiatorCount :: "(int \<times> nat) list"
  breakerCount :: "(int \<times> nat) list"
  memberMessageCount :: "(int \<times> nat) list"
  repeatMemberInfo :: "(int \<times> jsstring \<times> jsstring) list"
  chainLengthCount :: "(nat \<times> nat) list"
  contentStats :: "(jsstring \<times> ContentStats) list"
  currentContent :: "jsstring option"
  repeatChain :: "RepeatEntry list"
  totalRepeatChains :: nat
  totalChainLength :: nat

definition initialRepeatState :: RepeatState where
  "initialRepeatState =
     \<lparr>originatorCount = [], initiatorCount = [], breakerCount = [], memberMessageCount = [],
      repeatMemberInfo = [], chainLengthCount = [], contentStats = [],
      currentContent = None, repeatChain = [], totalRepeatChains = 0, totalChainLength = 0\<rparr>"

text \<open>\<open>m.set(k, (m.get(k) || 0) + 1)\<close>\<close>

definition increment :: "('k \<times> nat) list \<Rightarrow> 'k \<Rightarrow> ('k \<times> nat) list" where
  "increment m k = mapSet m k ((case mapGet m k of Some c \<Rightarrow> c | None \<Rightarrow> 0) + 1)"

definition processRepeatChain :: "RepeatEntry list \<Rightarrow> int option \<Rightarrow> RepeatState \<Rightarrow> RepeatState" where
  "processRepeatChain chain breakerId st =
     (if length chain < 3 then st
      else
        (let chainLength = length chain;
             origId = entrySenderId (chain ! 0);
             initiatorId = entrySenderId (chain ! 1);
             chainContent = entryContent (chain ! 0);
             chainTs = entryTs (chain ! 0)
         in st\<lparr>totalRepeatChains := totalRepeatChains st + 1,
               totalChainLength := totalChainLength st + chainLength,
               originatorCount := increment (originatorCount st) origId,
               initiatorCount := increment (initiatorCount st) initiatorId,
               breakerCount :=
                 (case breakerId of
                    Some b \<Rightarrow> increment (breakerCount st) b
                  | None \<Rightarrow> breakerCount st),
               chainLengthCount := increment (chainLengthCount st) chainLength,
               contentStats :=
                 (case mapGet (contentStats st) chainContent of
                    Some existing \<Rightarrow>
                      mapSet (contentStats st) chainContent
                        (if chainLength > maxChainLength existing
                         then existing\<lparr>statCount := statCount existing + 1,
                                        statLastTs := max (statLastTs existing) chainTs,
                                        maxChainLength := chainLength,
                                        originatorId := origId\<rparr>
                         else existing\<lparr>statCount := statCount existing + 1,
                                        statLastTs := max (statLastTs existing) chainTs\<rparr>)
                  | None \<Rightarrow>
                      mapSet (contentStats st) chainContent
                        \<lparr>statCount = 1, maxChainLength = chainLength,
                         originatorId = origId, statLastTs = chainTs\<rparr>)\<rparr>))"

text \<open>
  \<open>repeatChain[repeatChain.length - 1]?.senderId\<close>: the sender of the last entry,
  \<open>undefined\<close> (here \<open>None\<close>) for an empty chain.
\<close>

definition lastSender :: "RepeatEntry list \<Rightarrow> int option" where
  "lastSender chain = (if chain = [] then None else Some (entrySenderId (last chain)))"

definition repeatStep :: "MessageRow \<Rightarrow> RepeatState \<Rightarrow> RepeatState" where
  "repeatStep msg st0 =
     (let st1 = (if \<not> mapHas (repeatMemberInfo st0) (senderId msg)
                 then st0\<lparr>repeatMemberInfo :=
                        repeatMemberInfo st0 @ [(senderId msg, platformId msg, name msg)]\<rparr>
                 else st0);
          st = st1\<lparr>memberMessageCount := increment (memberMessageCount st1) (senderId msg)\<rparr>;
          c = trim (content msg);
          entry = \<lparr>entrySenderId = senderId msg, entryContent = c, entryTs = ts msg\<rparr>
      in if Some c = currentContent st
         then (if lastSender (repeatChain st) \<noteq> Some (senderId msg)
               then st\<lparr>repeatChain := repeatChain st @ [entry]\<rparr>
               else st)
         else (processRepeatChain (repeatChain st) (Some (senderId msg)) st)
                \<lparr>currentContent := Some c, repeatChain := [entry]\<rparr>)"

definition repeatScan :: "MessageRow list \<Rightarrow> RepeatState" where
  "repeatScan messages = fold repeatStep messages initialRepeatState"

record RepeatRank =
  repMemberId :: int
  repPlatformId :: jsstring
  repName :: jsstring
  repCount :: nat

record HotContent =
  hotContent :: jsstring
  hotCount :: nat
  hotMaxChainLength :: nat
  hotOriginatorName :: jsstring
  hotLastTs :: int

text \<open>
  The result of getRepeatAnalysis without its floating-point parts: the percentage of
  each rank item, the three rate lists (the same items as the three rank lists, ordered
  by a rounded floating-point rate) and the average chain length.
\<close>

record RepeatResult =
  originators :: "RepeatRank list"
  initiators :: "RepeatRank list"
  breakers :: "RepeatRank list"
  chainLengthDistribution :: "(nat \<times> nat) list"
  hotContents :: "HotContent list"
  resultTotalRepeatChains :: nat

definition buildRankList ::
  "(int \<times> jsstring \<times> jsstring) list \<Rightarrow> (int \<times> nat) list \<Rightarrow> RepeatRank list" where
  "buildRankList info countMap =
     sort_key (\<lambda>r. - int (repCount r))
       (List.map_filter (\<lambda>(memberId, n).
          (case mapGet info memberId of
             Some (pid, nm) \<Rightarrow>
               Some \<lparr>repMemberId = memberId, repPlatformId = pid, repName = nm, repCount = n\<rparr>
           | None \<Rightarrow> None)) countMap)"

text \<open>\<open>originatorInfo?.name || '...'\<close>: the two code units of the fallback name.\<close>

definition unknownName :: jsstring where
  "unknownName = [26410, 30693]"

definition getRepeatAnalysis :: "MessageRow list \<Rightarrow> RepeatResult" where
  "getRepeatAnalysis messages =
     (let st = processRepeatChain (repeatChain (repeatScan messages)) None (repeatScan messages);
          hot = map (\<lambda>(c, stats).
                  \<lparr>hotContent = c, hotCount = statCount stats,
                   hotMaxChainLength = maxChainLength stats,
                   hotOriginatorName =
                     (case mapGet (repeatMemberInfo st) (originatorId stats) of
                        Some (pid, nm) \<Rightarrow> if nm = [] then unknownName else nm
                      | None \<Rightarrow> unknownName),
                   hotLastTs = statLastTs stats\<rparr>) (contentStats st)
      in \<lparr>originators = buildRankList (repeatMemberInfo st) (originatorCount st),
          initiators = buildRankList (repeatMemberInfo st) (initiatorCount st),
          breakers = buildRankList (repeatMemberInfo st) (breakerCount st),
          chainLengthDistribution = sort_key fst (chainLengthCount st),
          hotContents = take 10 (sort_key (\<lambda>h. - int (hotMaxChainLength h)) hot),
          resultTotalRepeatChains = totalRepeatChains st\<rparr>)"

text \<open>
  The two message sequences of the repeat-chain example: member 1 is A, member 2 is B,
  all three messages say "hi", at timestamps 1, 2, 3.
\<close>

definition repeatRow :: "int \<Rightarrow> int \<Rightarrow> MessageRow" where
  "repeatRow i s =
     \<lparr>rowId = i, senderId = s, content = ascii ''hi'', ts = i,
      platformId = (if s = 1 then ascii ''a'' else ascii ''b''),
      name = (if s = 1 then ascii ''A'' else ascii ''B'')\<rparr>"

definition repeatExample1 :: "MessageRow list" where
  "repeatExample1 = [repeatRow 1 1, repeatRow 2 2, repeatRow 3 1]"

definition repeatExample2 :: "MessageRow list" where
  "repeatExample2 = [repeatRow 1 1, repeatRow 2 1, repeatRow 3 2]"

subsection \<open>Night-owl analysis: the adjusted date (getAdjustedDate)\<close>

text \<open>
  \<open>Date\<close> of the JavaScript runtime. An instant is its epoch second; the local time zone is
  its offset \<open>tz\<close> from UTC in seconds (28800 for UTC+8), taken as fixed (no daylight
  saving change between the instants compared). \<open>civilFromDays\<close> is the proleptic
  Gregorian date (year, month, day) of a day number counted from 1970-01-01.
\<close>

definition civilFromDays :: "int \<Rightarrow> int \<times> int \<times> int" where
  "civilFromDays days =
     (let z = days + 719468;
          era = z div 146097;
          doe = z - era * 146097;
          yoe = (doe - doe div 1460 + doe div 36524 - doe div 146096) div 365;
          doy = doe - (365 * yoe + yoe div 4 - yoe div 100);
          mp = (5 * doy + 2) div 153;
          d = doy - (153 * mp + 2) div 5 + 1;
          m = (if mp < 10 then mp + 3 else mp - 9);
          y = yoe + era * 400 + (if m \<le> 2 then 1 else 0)
      in (y, m, d))"

text \<open>\<open>date.getHours()\<close>: the hour of the local clock.\<close>

definition getHours :: "int \<Rightarrow> int \<Rightarrow> int" where
  "getHours tz t = ((t + tz) mod 86400) div 3600"

text \<open>\<open>date.getMinutes()\<close>: the minute of the local clock.\<close>

definition getMinutes :: "int \<Rightarrow> int \<Rightarrow> int" where
  "getMinutes tz t = ((t + tz) mod 3600) div 60"

text \<open>The local calendar date of an instant (\<open>getFullYear\<close>, \<open>getMonth\<close> + 1, \<open>getDate\<close>).\<close>

definition localDate :: "int \<Rightarrow> int \<Rightarrow> int \<times> int \<times> int" where
  "localDate tz t = civilFromDays ((t + tz) div 86400)"

text \<open>
  \<open>date.setDate(date.getDate() - 1)\<close>: the same local clock time on the previous local
  day, which is the instant 86400 seconds earlier.
\<close>

definition setDatePrevious :: "int \<Rightarrow> int" where
  "setDatePrevious t = t - 86400"

text \<open>\<open>date.toISOString().split('T')[0]\<close>: the calendar date of the instant in UTC.\<close>

definition toISODate :: "int \<Rightarrow> int \<times> int \<times> int" where
  "toISODate t = civilFromDays (t div 86400)"

definition getAdjustedDate :: "int \<Rightarrow> int \<Rightarrow> int \<times> int \<times> int" where
  "getAdjustedDate tz t =
     (let hour = getHours tz t;
          date = (if hour < 5 then setDatePrevious t else t)
      in toISODate date)"

section \<open>Merge engine\<close>

subsection \<open>String operations of the runtime\<close>

text \<open>
  \<open>String(n)\<close> for an integer: its decimal digits (code units 48 to 57), with a leading
  minus sign (45) when negative. (JavaScript prints integers below 10^21 this way;
  timestamps and lengths are far below.)
\<close>

function showNat :: "nat \<Rightarrow> jsstring" where
  "showNat n = (if n < 10 then [48 + n] else showNat (n div 10) @ [48 + n mod 10])"
  by pat_completeness auto
termination
  by (relation "measure (\<lambda>n. n)") auto

declare showNat.simps [simp del]

definition showInt :: "int \<Rightarrow> jsstring" where
  "showInt i = (if i < 0 then 45 # showNat (nat (- i)) else showNat (nat i))"

fun isPrefixOf :: "'a list \<Rightarrow> 'a list \<Rightarrow> bool" where
  "isPrefixOf [] ys = True"
| "isPrefixOf (x # xs) [] = False"
| "isPrefixOf (x # xs) (y # ys) = (x = y \<and> isPrefixOf xs ys)"

text \<open>\<open>hay.includes(needle)\<close>: \<open>needle\<close> occurs in \<open>hay\<close> as a contiguous substring.\<close>

fun includesStr :: "'a list \<Rightarrow> 'a list \<Rightarrow> bool" where
  "includesStr [] needle = (needle = [])"
| "includesStr (h # hay) needle = (isPrefixOf needle (h # hay) \<or> includesStr hay needle)"

text \<open>\<open>parts.join(sep)\<close>\<close>

fun join :: "'a list \<Rightarrow> 'a list list \<Rightarrow> 'a list" where
  "join sep [] = []"
| "join sep [x] = x"
| "join sep (x # y # r) = x @ sep @ join sep (y # r)"

text \<open>\<open>[...new Set(xs)]\<close>: the distinct elements in the order of their first occurrence.\<close>

definition uniq :: "'a list \<Rightarrow> 'a list" where
  "uniq xs = fold (\<lambda>x acc. if x \<in> set acc then acc else acc @ [x]) xs []"

subsection \<open>Data model (src/types/chat)\<close>

text \<open>
  The fields keep the source's names, with a prefix where two types share a field name:
  \<open>msgType\<close>, \<open>msgContent\<close> are \<open>type\<close>, \<open>content\<close> of a ParsedMessage; \<open>memberPlatformId\<close>,
  \<open>memberName\<close> are \<open>platformId\<close>, \<open>name\<close> of a ParsedMember; the \<open>cl\<close> fields are those of
  the ChatLab archive format. A nullable field is an \<open>option\<close>.
\<close>

datatype MessageType = TEXT | IMAGE | VOICE | VIDEO | FILE | EMOJI | SYSTEM

record ParsedMessage =
  senderPlatformId :: jsstring
  senderName :: jsstring
  timestamp :: int
  msgType :: MessageType
  msgContent :: "jsstring option"

record ParsedMember =
  memberPlatformId :: jsstring
  memberName :: jsstring

record ParsedMeta =
  metaName :: jsstring
  platform :: jsstring
  chatType :: jsstring

record ParseResult =
  meta :: ParsedMeta
  members :: "ParsedMember list"
  messages :: "ParsedMessage list"

record ChatLabMember =
  clPlatformId :: jsstring
  clName :: jsstring
  aliases :: "jsstring list option"

record ChatLabMessage =
  sender :: jsstring
  clmName :: jsstring
  clmTimestamp :: int
  clmType :: MessageType
  clmContent :: "jsstring option"

record MergeSource =
  filename :: jsstring
  sourcePlatform :: jsstring
  messageCount :: nat

record ChatLabHeader =
  version :: jsstring
  exportedAt :: int
  generator :: jsstring

record ChatLabMeta =
  clMetaName :: jsstring
  clMetaPlatform :: jsstring
  clMetaType :: jsstring
  sources :: "MergeSource list"

record ChatLabFormat =
  chatlab :: ChatLabHeader
  clMeta :: ChatLabMeta
  clMembers :: "ChatLabMember list"
  clMessages :: "ChatLabMessage list"

record MergeConflict =
  conflictId :: jsstring
  conflictTimestamp :: int
  conflictSender :: jsstring
  contentLength1 :: nat
  contentLength2 :: nat
  content1 :: jsstring
  content2 :: jsstring

record ConflictCheckResult =
  conflicts :: "MergeConflict list"
  totalMessages :: nat

datatype Resolution = keep1 | keep2 | keepBoth

record ConflictResolution =
  resId :: jsstring
  resolution :: Resolution

record MergeParams =
  filePaths :: "jsstring list"
  outputName :: jsstring
  outputDir :: "jsstring option"
  conflictResolutions :: "ConflictResolution list"
  andAnalyze :: bool

record MergeResult =
  success :: bool
  outputPath :: "jsstring option"
  sessionId :: "jsstring option"
  error :: "jsstring option"

subsection \<open>Exceptions, effects and the environment\<close>

text \<open>
  A thrown value is an \<open>Error\<close> with its message, or some other value. An asynchronous
  operation ends in \<open>Inl\<close> (the exception reaches the caller: the promise is rejected)
  or in \<open>Inr\<close> (its result), and leaves the list of the effects it had: the files it
  parsed, the archive it wrote, the corpus it imported.
\<close>

datatype Exn = Error jsstring | NonError

datatype Effect =
    Parsed jsstring
  | Wrote jsstring ChatLabFormat
  | Imported ParseResult

type_synonym 'a run = "(Exn + 'a) \<times> Effect list"

text \<open>
  What the module imports and what the runtime provides, as parameters: the sniffer
  (\<open>detectFormat\<close>, giving the name of the detected format or \<open>None\<close> for \<open>null\<close>), the
  parser, the session store's import, the file system and the clock.
\<close>

record Env =
  detectFormat :: "jsstring \<Rightarrow> jsstring option"
  parseFileSync :: "jsstring \<Rightarrow> Exn + ParseResult"
  importData :: "ParseResult \<Rightarrow> Exn + jsstring"
  basename :: "jsstring \<Rightarrow> jsstring"
  pathJoin :: "jsstring list \<Rightarrow> jsstring"
  documentsPath :: "jsstring option"
  cwd :: jsstring
  ensureDir :: "jsstring \<Rightarrow> Exn option"
  writeFileSync :: "jsstring \<Rightarrow> ChatLabFormat \<Rightarrow> Exn option"
  nowSeconds :: int
  todayYYYYMMDD :: jsstring
  typeErrorMessage :: jsstring

subsection \<open>checkConflicts\<close>

text \<open>\<open>(msg.content || '')\<close>\<close>

definition contentOrEmpty :: "ParsedMessage \<Rightarrow> jsstring" where
  "contentOrEmpty msg = (case msgContent msg of None \<Rightarrow> [] | Some c \<Rightarrow> c)"

text \<open>The template string of getMessageKey; 95 is the underscore.\<close>

definition getMessageKey :: "ParsedMessage \<Rightarrow> jsstring" where
  "getMessageKey msg =
     showInt (timestamp msg) @ [95] @ senderPlatformId msg @ [95]
       @ showNat (length (contentOrEmpty msg))"

text \<open>The first loop of checkConflicts: the format name of every file, or the throw.\<close>

definition unrecognizedFormatText :: jsstring where
  "unrecognizedFormatText = [26080, 27861, 35782, 21035, 25991, 20214, 26684, 24335, 58, 32]"

fun detectFormats :: "Env \<Rightarrow> jsstring list \<Rightarrow> Exn + jsstring list" where
  "detectFormats env [] = Inr []"
| "detectFormats env (filePath # rest) =
     (case detectFormat env filePath of
        None \<Rightarrow> Inl (Error (unrecognizedFormatText @ basename env filePath))
      | Some format \<Rightarrow>
          (case detectFormats env rest of
             Inl e \<Rightarrow> Inl e
           | Inr formats \<Rightarrow> Inr (format # formats)))"

definition formatMismatchMessage :: "jsstring list \<Rightarrow> jsstring" where
  "formatMismatchMessage uniqueFormats =
     [19981, 25903, 25345, 21512, 24182, 19981, 21516, 26684, 24335, 30340, 32842, 22825,
      35760, 24405, 12290, 10, 26816, 27979, 21040, 30340, 26684, 24335, 65306]
     @ join [12289] uniqueFormats
     @ [10, 35831, 30830, 20445, 25152, 26377, 25991, 20214, 20351, 29992, 30456, 21516,
        30340, 23548, 20986, 24037, 20855, 21644, 26684, 24335, 12290]"

text \<open>
  \<open>for (const filePath of filePaths) { const result = await parseFileSync(filePath) ... }\<close>:
  the parse results with their source names, in input order; the first failing parse
  throws. The effects are the files handed to the parser.
\<close>

fun parseFiles :: "Env \<Rightarrow> jsstring list \<Rightarrow> ((ParseResult \<times> jsstring) list) run" where
  "parseFiles env [] = (Inr [], [])"
| "parseFiles env (filePath # rest) =
     (case parseFileSync env filePath of
        Inl e \<Rightarrow> (Inl e, [Parsed filePath])
      | Inr result \<Rightarrow>
          (case parseFiles env rest of
             (Inl e, eff) \<Rightarrow> (Inl e, Parsed filePath # eff)
           | (Inr results, eff) \<Rightarrow>
               (Inr ((result, basename env filePath) # results), Parsed filePath # eff)))"

text \<open>\<open>allMessages\<close>: every message with its source, files in input order.\<close>

definition allMessages :: "(ParseResult \<times> jsstring) list \<Rightarrow> (ParsedMessage \<times> jsstring) list" where
  "allMessages parseResults =
     concat (map (\<lambda>(result, source). map (\<lambda>msg. (msg, source)) (messages result)) parseResults)"

text \<open>
  \<open>if (!m.has(k)) m.set(k, []); m.get(k).push(x)\<close> on an insertion-ordered Map, and the
  grouping loop built from it.
\<close>

definition pushInto :: "('k \<times> 'a list) list \<Rightarrow> 'k \<Rightarrow> 'a \<Rightarrow> ('k \<times> 'a list) list" where
  "pushInto m k x =
     (let m1 = (if \<not> mapHas m k then m @ [(k, [])] else m)
      in mapSet m1 k ((case mapGet m1 k of Some vs \<Rightarrow> vs | None \<Rightarrow> []) @ [x]))"

definition groupBy :: "('a \<Rightarrow> 'k) \<Rightarrow> 'a list \<Rightarrow> ('k \<times> 'a list) list" where
  "groupBy f xs = fold (\<lambda>x m. pushInto m (f x) x) xs []"

text \<open>The index pairs \<open>i < j\<close> of the two nested loops over \<open>lengthEntries\<close>, in loop order.\<close>

fun pairs :: "'a list \<Rightarrow> ('a \<times> 'a) list" where
  "pairs [] = []"
| "pairs (x # xs) = map (Pair x) xs @ pairs xs"

text \<open>\<open>conflict_\<close>\<close>

definition conflictPrefix :: jsstring where
  "conflictPrefix = [99, 111, 110, 102, 108, 105, 99, 116, 95]"

definition lengthPairStep ::
  "int \<Rightarrow> jsstring \<Rightarrow>
   (nat \<times> (ParsedMessage \<times> jsstring) list) \<times> (nat \<times> (ParsedMessage \<times> jsstring) list) \<Rightarrow>
   MergeConflict list \<Rightarrow> MergeConflict list" where
  "lengthPairStep t sndr p cs =
     (case p of ((len1, items1), (len2, items2)) \<Rightarrow>
        (case items1 of
           [] \<Rightarrow> cs
         | item1 # _ \<Rightarrow>
             (case find (\<lambda>it. snd it \<noteq> snd item1) items2 of
                None \<Rightarrow> cs
              | Some item2 \<Rightarrow>
                  cs @ [\<lparr>conflictId = conflictPrefix @ showInt t @ [95] @ sndr @ [95]
                                        @ showNat (length cs),
                         conflictTimestamp = t,
                         conflictSender =
                           (if senderName (fst item1) = [] then sndr else senderName (fst item1)),
                         contentLength1 = len1,
                         contentLength2 = len2,
                         content1 = contentOrEmpty (fst item1),
                         content2 = contentOrEmpty (fst item2)\<rparr>])))"

definition senderGroupStep ::
  "int \<Rightarrow> jsstring \<times> (ParsedMessage \<times> jsstring) list \<Rightarrow> MergeConflict list \<Rightarrow> MergeConflict list" where
  "senderGroupStep t g cs =
     (case g of (sndr, senderItems) \<Rightarrow>
        if length senderItems < 2 then cs
        else if length (uniq (map snd senderItems)) < 2 then cs
        else
          (let lengthGroups = groupBy (\<lambda>it. length (contentOrEmpty (fst it))) senderItems
           in if length lengthGroups > 1
              then fold (lengthPairStep t sndr) (pairs lengthGroups) cs
              else cs))"

definition timeGroupStep ::
  "int \<times> (ParsedMessage \<times> jsstring) list \<Rightarrow> MergeConflict list \<Rightarrow> MergeConflict list" where
  "timeGroupStep g cs =
     (case g of (t, items) \<Rightarrow>
        if length items < 2 then cs
        else fold (senderGroupStep t) (groupBy (\<lambda>it. senderPlatformId (fst it)) items) cs)"

definition detectConflicts :: "(ParsedMessage \<times> jsstring) list \<Rightarrow> MergeConflict list" where
  "detectConflicts items = fold timeGroupStep (groupBy (\<lambda>it. timestamp (fst it)) items) []"

definition checkConflicts :: "Env \<Rightarrow> jsstring list \<Rightarrow> ConflictCheckResult run" where
  "checkConflicts env paths =
     (case detectFormats env paths of
        Inl e \<Rightarrow> (Inl e, [])
      | Inr formats \<Rightarrow>
          if length (uniq formats) > 1
          then (Inl (Error (formatMismatchMessage (uniq formats))), [])
          else
            (case parseFiles env paths of
               (Inl e, eff) \<Rightarrow> (Inl e, eff)
             | (Inr parseResults, eff) \<Rightarrow>
                 (Inr \<lparr>conflicts = detectConflicts (allMessages parseResults),
                       totalMessages =
                         length (uniq (map (getMessageKey \<circ> fst) (allMessages parseResults)))\<rparr>,
                  eff)))"

subsection \<open>mergeFiles\<close>

text \<open>The member loop: the first name of a platform id wins, other names become aliases.\<close>

definition mergeMember ::
  "ParsedMember \<Rightarrow> (jsstring \<times> ChatLabMember) list \<Rightarrow> (jsstring \<times> ChatLabMember) list" where
  "mergeMember member memberMap =
     (case mapGet memberMap (memberPlatformId member) of
        Some existing \<Rightarrow>
          if clName existing \<noteq> memberName member
             \<and> \<not> (case aliases existing of
                      None \<Rightarrow> False
                    | Some as \<Rightarrow> memberName member \<in> set as)
          then mapSet memberMap (memberPlatformId member)
                 (existing\<lparr>aliases :=
                    Some ((case aliases existing of None \<Rightarrow> [] | Some as \<Rightarrow> as)
                          @ [memberName member])\<rparr>)
          else memberMap
      | None \<Rightarrow>
          mapSet memberMap (memberPlatformId member)
            \<lparr>clPlatformId = memberPlatformId member, clName = memberName member,
             aliases = None\<rparr>)"

definition mergeMembers :: "(ParseResult \<times> jsstring) list \<Rightarrow> ChatLabMember list" where
  "mergeMembers parseResults =
     map snd (fold mergeMember (concat (map (members \<circ> fst) parseResults)) [])"

definition toChatLabMessage :: "ParsedMessage \<Rightarrow> ChatLabMessage" where
  "toChatLabMessage msg =
     \<lparr>sender = senderPlatformId msg, clmName = senderName msg, clmTimestamp = timestamp msg,
      clmType = msgType msg, clmContent = msgContent msg\<rparr>"

text \<open>
  One round of the dedup loop. The state is \<open>messageMap\<close> and \<open>processedConflicts\<close>.
  The resolution found for the message's conflict is read, but the branches for
  \<open>keepBoth\<close>, \<open>keep1\<close> and \<open>keep2\<close> have empty bodies in the source.
\<close>

definition findConflictId :: "ConflictResolution list \<Rightarrow> ParsedMessage \<Rightarrow> jsstring option" where
  "findConflictId resolutions msg =
     map_option resId
       (find (\<lambda>c. includesStr (resId c) (showInt (timestamp msg) @ [95] @ senderPlatformId msg))
          resolutions)"

definition dedupStep ::
  "ConflictResolution list \<Rightarrow> ParsedMessage \<times> jsstring \<Rightarrow>
   (jsstring \<times> ChatLabMessage list) list \<times> jsstring list \<Rightarrow>
   (jsstring \<times> ChatLabMessage list) list \<times> jsstring list" where
  "dedupStep resolutions item st =
     (case st of (messageMap, processedConflicts) \<Rightarrow>
        (let msg = fst item;
             key = getMessageKey msg;
             processed1 =
               (case findConflictId resolutions msg of
                  Some cid \<Rightarrow>
                    if cid \<noteq> [] \<and> cid \<notin> set processedConflicts
                    then processedConflicts @ [cid]
                    else processedConflicts
                | None \<Rightarrow> processedConflicts);
             map1 = (if \<not> mapHas messageMap key then messageMap @ [(key, [])] else messageMap);
             existing = (case mapGet map1 key of Some ms \<Rightarrow> ms | None \<Rightarrow> []);
             map2 = (if length existing = 0
                     then mapSet map1 key (existing @ [toChatLabMessage msg])
                     else map1)
         in (map2, processed1)))"

text \<open>
  \<open>Array.from(messageMap.values()).flat().sort((a, b) => a.timestamp - b.timestamp)\<close>;
  the sort of the runtime is stable.
\<close>

definition mergedMessages ::
  "ConflictResolution list \<Rightarrow> (ParseResult \<times> jsstring) list \<Rightarrow> ChatLabMessage list" where
  "mergedMessages resolutions parseResults =
     sort_key clmTimestamp
       (concat (map snd (fst (fold (dedupStep resolutions) (allMessages parseResults) ([], [])))))"

text \<open>\<open>mixed\<close>, \<open>1.0.0\<close> and the other literals of the archive.\<close>

definition mergedPlatform :: "(ParseResult \<times> jsstring) list \<Rightarrow> ParseResult \<Rightarrow> jsstring" where
  "mergedPlatform parseResults first =
     (if length (uniq (map (platform \<circ> meta \<circ> fst) parseResults)) = 1
      then platform (meta first) else ascii ''mixed'')"

definition buildChatLab ::
  "Env \<Rightarrow> MergeParams \<Rightarrow> (ParseResult \<times> jsstring) list \<Rightarrow> ParseResult \<Rightarrow> ChatLabFormat" where
  "buildChatLab env params parseResults first =
     \<lparr>chatlab = \<lparr>version = ascii ''1.0.0'', exportedAt = nowSeconds env,
                  generator = ascii ''ChatLab Merge Tool''\<rparr>,
      clMeta = \<lparr>clMetaName = outputName params,
                 clMetaPlatform = mergedPlatform parseResults first,
                 clMetaType = chatType (meta first),
                 sources = map (\<lambda>(result, source).
                             \<lparr>filename = source, sourcePlatform = platform (meta result),
                              messageCount = length (messages result)\<rparr>) parseResults\<rparr>,
      clMembers = mergeMembers parseResults,
      clMessages = mergedMessages (conflictResolutions params) parseResults\<rparr>"

definition getDefaultOutputDir :: "Env \<Rightarrow> jsstring" where
  "getDefaultOutputDir env =
     (case documentsPath env of
        Some docPath \<Rightarrow> pathJoin env [docPath, ascii ''ChatLab'', ascii ''merged'']
      | None \<Rightarrow> pathJoin env [cwd env, ascii ''merged''])"

text \<open>The characters \<open>/ \ ? % * : | " < >\<close> of the name become underscores.\<close>

definition generateOutputFilename :: "Env \<Rightarrow> jsstring \<Rightarrow> jsstring" where
  "generateOutputFilename env nm =
     map (\<lambda>c. if c \<in> set [47, 92, 63, 37, 42, 58, 124, 34, 60, 62] then 95 else c) nm
     @ ascii ''_merged_'' @ todayYYYYMMDD env @ ascii ''.chatlab.json''"

definition toParseResult :: "ChatLabFormat \<Rightarrow> ParseResult" where
  "toParseResult d =
     \<lparr>meta = \<lparr>metaName = clMetaName (clMeta d), platform = clMetaPlatform (clMeta d),
               chatType = clMetaType (clMeta d)\<rparr>,
      members = map (\<lambda>m. \<lparr>memberPlatformId = clPlatformId m, memberName = clName m\<rparr>)
                  (clMembers d),
      messages = map (\<lambda>m. \<lparr>senderPlatformId = sender m, senderName = clmName m,
                            timestamp = clmTimestamp m, msgType = clmType m,
                            msgContent = clmContent m\<rparr>) (clMessages d)\<rparr>"

text \<open>
  The body of the \<open>try\<close> block. With no input file \<open>parseResults[0]\<close> is undefined and
  reading its \<open>result\<close> throws a TypeError, after the (pure) member and message loops
  and before anything is written.
\<close>

definition mergeFilesBody :: "Env \<Rightarrow> MergeParams \<Rightarrow> MergeResult run" where
  "mergeFilesBody env params =
     (case parseFiles env (filePaths params) of
        (Inl e, eff) \<Rightarrow> (Inl e, eff)
      | (Inr parseResults, eff) \<Rightarrow>
          (case parseResults of
             [] \<Rightarrow> (Inl (Error (typeErrorMessage env)), eff)
           | (first, _) # _ \<Rightarrow>
               (let chatLabData = buildChatLab env params parseResults first;
                    targetDir = (case outputDir params of
                                   None \<Rightarrow> getDefaultOutputDir env
                                 | Some d \<Rightarrow> if d = [] then getDefaultOutputDir env else d);
                    path = pathJoin env [targetDir, generateOutputFilename env (outputName params)]
                in case ensureDir env targetDir of
                     Some e \<Rightarrow> (Inl e, eff)
                   | None \<Rightarrow>
                       (case writeFileSync env path chatLabData of
                          Some e \<Rightarrow> (Inl e, eff)
                        | None \<Rightarrow>
                            if andAnalyze params
                            then (case importData env (toParseResult chatLabData) of
                                    Inl e \<Rightarrow> (Inl e, eff @ [Wrote path chatLabData])
                                  | Inr sid \<Rightarrow>
                                      (Inr \<lparr>success = True, outputPath = Some path,
                                            sessionId = Some sid, error = None\<rparr>,
                                       eff @ [Wrote path chatLabData,
                                              Imported (toParseResult chatLabData)]))
                            else (Inr \<lparr>success = True, outputPath = Some path,
                                       sessionId = None, error = None\<rparr>,
                                  eff @ [Wrote path chatLabData])))))"

text \<open>\<open>err instanceof Error ? err.message : '...'\<close>, the four code units of the fallback.\<close>

definition catchMessage :: "Exn \<Rightarrow> jsstring" where
  "catchMessage e = (case e of Error m \<Rightarrow> m | NonError \<Rightarrow> [21512, 24182, 22833, 36133])"

definition mergeFiles :: "Env \<Rightarrow> MergeParams \<Rightarrow> MergeResult run" where
  "mergeFiles env params =
     (case mergeFilesBody env params of
        (Inr r, eff) \<Rightarrow> (Inr r, eff)
      | (Inl e, eff) \<Rightarrow>
          (Inr \<lparr>success = False, outputPath = None, sessionId = None,
                error = Some (catchMessage e)\<rparr>, eff))"



subsection \<open>The fingerprint of the specification\<close>

text \<open>
  The specification's message identity for dedup: the triple (timestamp, sender
  identifier, content length), for a parsed message and for a message of the archive.
  \<open>uniqBy k xs\<close> keeps, of the elements with the same \<open>k\<close>, the first of the list.
\<close>

definition fingerprint :: "ParsedMessage \<Rightarrow> int \<times> jsstring \<times> nat" where
  "fingerprint msg = (timestamp msg, senderPlatformId msg, length (contentOrEmpty msg))"


definition uniqBy :: "('a \<Rightarrow> 'k) \<Rightarrow> 'a list \<Rightarrow> 'a list" where
  "uniqBy k xs = fold (\<lambda>x acc. if k x \<in> k ` set acc then acc else acc @ [x]) xs []"

subsection \<open>An example environment\<close>

text \<open>
  Three files for the concrete instances below: \<open>a.json\<close> and \<open>c.json\<close> are sniffed as
  format Alpha, \<open>b.json\<close> as format Beta, any other path is not recognised and cannot be
  read. In \<open>a.json\<close> the user u1 sent "ok" and "no" in the same second.
\<close>

definition exampleMessage :: "int \<Rightarrow> string \<Rightarrow> string \<Rightarrow> ParsedMessage" where
  "exampleMessage t s c =
     \<lparr>senderPlatformId = ascii s, senderName = ascii s, timestamp = t, msgType = TEXT,
      msgContent = Some (ascii c)\<rparr>"

definition exampleResult :: "ParsedMessage list \<Rightarrow> ParseResult" where
  "exampleResult ms =
     \<lparr>meta = \<lparr>metaName = ascii ''chat'', platform = ascii ''qq'', chatType = ascii ''group''\<rparr>,
      members = [\<lparr>memberPlatformId = ascii ''u1'', memberName = ascii ''u1''\<rparr>,
                 \<lparr>memberPlatformId = ascii ''u2'', memberName = ascii ''u2''\<rparr>],
      messages = ms\<rparr>"

definition exampleFileA :: ParseResult where
  "exampleFileA =
     exampleResult [exampleMessage 100 ''u1'' ''ok'', exampleMessage 100 ''u1'' ''no'',
                    exampleMessage 50 ''u2'' ''hi'']"

definition exampleFileB :: ParseResult where
  "exampleFileB = exampleResult [exampleMessage 70 ''u1'' ''hey'']"

definition exampleFileC :: ParseResult where
  "exampleFileC =
     exampleResult [exampleMessage 100 ''u1'' ''ok'', exampleMessage 200 ''u2'' ''yo'']"

definition exampleEnv :: Env where
  "exampleEnv =
     \<lparr>detectFormat = (\<lambda>p. if p = ascii ''a.json'' \<or> p = ascii ''c.json'' then Some (ascii ''Alpha'')
                           else if p = ascii ''b.json'' then Some (ascii ''Beta'') else None),
      parseFileSync = (\<lambda>p. if p = ascii ''a.json'' then Inr exampleFileA
                            else if p = ascii ''b.json'' then Inr exampleFileB
                            else if p = ascii ''c.json'' then Inr exampleFileC
                            else Inl (Error (ascii ''ENOENT''))),
      importData = (\<lambda>r. Inr (ascii ''session1'')),
      basename = (\<lambda>p. p),
      pathJoin = join [47],
      documentsPath = Some (ascii ''/docs''),
      cwd = ascii ''/app'',
      ensureDir = (\<lambda>d. None),
      writeFileSync = (\<lambda>p d. None),
      nowSeconds = 1700000000,
      todayYYYYMMDD = ascii ''20231114'',
      typeErrorMessage = ascii ''Cannot read properties of undefined''\<rparr>"

definition exampleParams :: MergeParams where
  "exampleParams =
     \<lparr>filePaths = [ascii ''a.json'', ascii ''c.json''],
      outputName = ascii ''chat'',
      outputDir = None,
      conflictResolutions = [\<lparr>resId = ascii ''conflict_100_u1_0'', resolution = keepBoth\<rparr>],
      andAnalyze = False\<rparr>"

section \<open>Streaming parsers (shuakami-qq-exporter legacy and V4)\<close>

subsection \<open>Input records\<close>

text \<open>
  The values the JSON stream delivers for \<open>messages.N\<close>. An optional field is an
  \<open>option\<close>; the optional arrays \<open>resources\<close> and \<open>elements\<close> are the lists of their
  \<open>type\<close> strings (empty when the array is absent, which the code treats alike). The
  field prefixes tell the records of the two formats apart (\<open>lg\<close> legacy, \<open>v4\<close> V4).
\<close>

datatype RawTimestamp = TsNumber int | TsString jsstring

record RawSender =
  uid :: "jsstring option"
  uin :: "jsstring option"
  rawName :: jsstring

record RawContent =
  contentText :: jsstring
  contentResources :: "jsstring list"
  contentElements :: "jsstring list"

record LegacyMessage =
  lgSender :: RawSender
  lgTimestamp :: int
  lgType :: "jsstring option"
  lgSystem :: bool
  lgRecalled :: bool
  lgContent :: RawContent

record V4Message =
  v4Sender :: RawSender
  v4Timestamp :: jsstring
  v4MessageType :: "int option"
  v4IsSystemMessage :: bool
  v4IsRecalled :: bool
  v4Content :: RawContent

text \<open>
  The file as the parser reads it: its size, the \<open>chatInfo\<close> object found in its head
  (name and type; \<open>None\<close> when the pattern does not match or the JSON does not parse),
  the records of the stream, and the error of the stream if the JSON is malformed.
\<close>

record 'r SourceFile =
  totalBytes :: nat
  chatInfo :: "(jsstring \<times> jsstring) option"
  records :: "'r list"
  streamError :: "Exn option"

subsection \<open>Imported helpers and constants\<close>

text \<open>
  \<open>parseTimestamp\<close> and \<open>isValidYear\<close> (parser/utils) and the enum values
  \<open>ChatPlatform.QQ\<close>, \<open>ChatType.GROUP\<close>, \<open>ChatType.PRIVATE\<close> (types/chat) are imported
  by the parsers and are parameters of the model.
\<close>

record ParserUtils =
  parseTimestamp :: "RawTimestamp \<Rightarrow> int option"
  isValidYear :: "int \<Rightarrow> bool"
  platformQQ :: jsstring
  chatTypeGROUP :: jsstring
  chatTypePRIVATE :: jsstring

text \<open>
  Modelled from the spec: \<open>parseTimestamp\<close> and \<open>isValidYear\<close> of parser/utils, which
  are not in the sources. The specification (4.3): the timestamp is resolved "from
  either an integer (interpreted as milliseconds, divided to seconds) or an ISO-8601
  string; a record whose resolved year is before 2000 is treated as invalid". The year is
  that of the local calendar date (\<open>tz\<close> is the zone's offset in seconds); the reading of
  an ISO-8601 string is the parameter \<open>readIso\<close>.
\<close>

definition specParseTimestamp :: "(jsstring \<Rightarrow> int option) \<Rightarrow> RawTimestamp \<Rightarrow> int option" where
  "specParseTimestamp readIso raw =
     (case raw of TsNumber ms \<Rightarrow> Some (ms div 1000) | TsString s \<Rightarrow> readIso s)"

definition specIsValidYear :: "int \<Rightarrow> int \<Rightarrow> bool" where
  "specIsValidYear tz t = (2000 \<le> fst (localDate tz t))"

definition specUtils :: "int \<Rightarrow> (jsstring \<Rightarrow> int option) \<Rightarrow> ParserUtils" where
  "specUtils tz readIso =
     \<lparr>parseTimestamp = specParseTimestamp readIso, isValidYear = specIsValidYear tz,
      platformQQ = ascii ''qq'', chatTypeGROUP = ascii ''group'',
      chatTypePRIVATE = ascii ''private''\<rparr>"

subsection \<open>Message type conversion\<close>

text \<open>The first resource decides, unless its type is none of the five known ones.\<close>

definition typeOfResources :: "jsstring list \<Rightarrow> MessageType option" where
  "typeOfResources rs =
     (case rs of
        [] \<Rightarrow> None
      | resourceType # _ \<Rightarrow>
          if resourceType = ascii ''image'' then Some IMAGE
          else if resourceType = ascii ''video'' then Some VIDEO
          else if resourceType = ascii ''voice'' \<or> resourceType = ascii ''audio'' then Some VOICE
          else if resourceType = ascii ''file'' then Some FILE
          else None)"

definition hasFaceElement :: "jsstring list \<Rightarrow> bool" where
  "hasFaceElement es = list_ex (\<lambda>t. t = ascii ''market_face'' \<or> t = ascii ''face'') es"

definition convertMessageTypeLegacy :: "jsstring option \<Rightarrow> RawContent \<Rightarrow> MessageType" where
  "convertMessageTypeLegacy qqType c =
     (case typeOfResources (contentResources c) of
        Some t \<Rightarrow> t
      | None \<Rightarrow>
          if hasFaceElement (contentElements c) then EMOJI
          else if qqType = Some (ascii ''type_1'') then TEXT
          else if qqType = Some (ascii ''type_17'') then EMOJI
          else if qqType = Some (ascii ''type_3'') then IMAGE
          else if qqType = Some (ascii ''type_7'') then VOICE
          else TEXT)"

definition convertMessageTypeV4 :: "int option \<Rightarrow> RawContent \<Rightarrow> MessageType" where
  "convertMessageTypeV4 messageType c =
     (case typeOfResources (contentResources c) of
        Some t \<Rightarrow> t
      | None \<Rightarrow>
          if hasFaceElement (contentElements c) then EMOJI
          else if messageType = Some 1 then TEXT
          else if messageType = Some 2 then IMAGE
          else if messageType = Some 3 then VOICE
          else if messageType = Some 7 then VIDEO
          else TEXT)"

subsection \<open>processMessage\<close>

text \<open>\<open>msg.sender.uin || msg.sender.uid\<close>, and \<open>None\<close> where \<open>!platformId\<close> holds.\<close>

definition truthy :: "jsstring option \<Rightarrow> bool" where
  "truthy s = (case s of None \<Rightarrow> False | Some v \<Rightarrow> v \<noteq> [])"

definition resolvePlatformId :: "RawSender \<Rightarrow> jsstring option" where
  "resolvePlatformId s =
     (let p = (if truthy (uin s) then uin s else uid s)
      in if truthy p then p else None)"

text \<open>The six code units of the marker put before the text of a recalled message.\<close>

definition recalledMarker :: jsstring where
  "recalledMarker = [91, 24050, 25764, 22238, 93, 32]"

definition textContentOf :: "bool \<Rightarrow> RawContent \<Rightarrow> jsstring option" where
  "textContentOf recalled c =
     (let textContent = (if recalled then recalledMarker @ contentText c else contentText c)
      in if textContent = [] then None else Some textContent)"

text \<open>
  processMessage of the legacy parser: the parsed message (or \<open>None\<close> for \<open>null\<close>) and
  the member map after the call. The member is registered before the timestamp is
  looked at.
\<close>

definition processMessageLegacy ::
  "ParserUtils \<Rightarrow> LegacyMessage \<Rightarrow> (jsstring \<times> ParsedMember) list \<Rightarrow>
   ParsedMessage option \<times> (jsstring \<times> ParsedMember) list" where
  "processMessageLegacy u msg memberMap =
     (case resolvePlatformId (lgSender msg) of
        None \<Rightarrow> (None, memberMap)
      | Some pid \<Rightarrow>
          (let sName = (if rawName (lgSender msg) \<noteq> [] then rawName (lgSender msg) else pid);
               memberMap1 = mapSet memberMap pid \<lparr>memberPlatformId = pid, memberName = sName\<rparr>
           in case parseTimestamp u (TsNumber (lgTimestamp msg)) of
                None \<Rightarrow> (None, memberMap1)
              | Some t \<Rightarrow>
                  if \<not> isValidYear u t then (None, memberMap1)
                  else
                    (Some \<lparr>senderPlatformId = pid, senderName = sName, timestamp = t,
                           msgType = (if lgSystem msg then SYSTEM
                                      else convertMessageTypeLegacy (lgType msg) (lgContent msg)),
                           msgContent = textContentOf (lgRecalled msg) (lgContent msg)\<rparr>,
                     memberMap1)))"

text \<open>processMessage of the V4 parser.\<close>

definition processMessageV4 ::
  "ParserUtils \<Rightarrow> V4Message \<Rightarrow> (jsstring \<times> ParsedMember) list \<Rightarrow>
   ParsedMessage option \<times> (jsstring \<times> ParsedMember) list" where
  "processMessageV4 u msg memberMap =
     (case resolvePlatformId (v4Sender msg) of
        None \<Rightarrow> (None, memberMap)
      | Some pid \<Rightarrow>
          (let sName = (if rawName (v4Sender msg) \<noteq> [] then rawName (v4Sender msg) else pid);
               memberMap1 = mapSet memberMap pid \<lparr>memberPlatformId = pid, memberName = sName\<rparr>
           in case parseTimestamp u (TsString (v4Timestamp msg)) of
                None \<Rightarrow> (None, memberMap1)
              | Some t \<Rightarrow>
                  if \<not> isValidYear u t then (None, memberMap1)
                  else
                    (Some \<lparr>senderPlatformId = pid, senderName = sName, timestamp = t,
                           msgType = (if v4IsSystemMessage msg then SYSTEM
                                      else convertMessageTypeV4 (v4MessageType msg) (v4Content msg)),
                           msgContent = textContentOf (v4IsRecalled msg) (v4Content msg)\<rparr>,
                     memberMap1)))"

subsection \<open>The parse generator\<close>

text \<open>
  The events a parser yields. A progress event carries the arguments given to
  \<open>createProgress\<close> (parser/utils). The calls of the optional \<open>onProgress\<close> observer
  are not events of the sequence and are left out.
\<close>

record Progress =
  stage :: jsstring
  bytesRead :: nat
  progressTotalBytes :: nat
  progressMessages :: nat
  progressText :: jsstring

datatype ParseEvent =
    ProgressEvent Progress
  | MetaEvent ParsedMeta
  | MembersEvent "ParsedMember list"
  | MessagesEvent "ParsedMessage list"
  | DoneEvent nat nat

record ParserState =
  memberMap :: "(jsstring \<times> ParsedMember) list"
  messageBatch :: "ParsedMessage list"
  batchCollector :: "ParsedMessage list"
  messagesProcessed :: nat

definition initialParserState :: ParserState where
  "initialParserState =
     \<lparr>memberMap = [], messageBatch = [], batchCollector = [], messagesProcessed = 0\<rparr>"

text \<open>
  The handler of the pipeline's \<open>data\<close> event, for a given processMessage, and the
  handler of its \<open>end\<close> event.
\<close>

definition onData ::
  "('r \<Rightarrow> (jsstring \<times> ParsedMember) list \<Rightarrow> ParsedMessage option \<times> (jsstring \<times> ParsedMember) list) \<Rightarrow>
   nat \<Rightarrow> 'r \<Rightarrow> ParserState \<Rightarrow> ParserState" where
  "onData processMessage batchSize v st =
     (case processMessage v (memberMap st) of
        (None, mm) \<Rightarrow> st\<lparr>memberMap := mm\<rparr>
      | (Some parsed, mm) \<Rightarrow>
          (let collector = batchCollector st @ [parsed];
               n = messagesProcessed st + 1
           in if length collector \<ge> batchSize
              then st\<lparr>memberMap := mm, messageBatch := messageBatch st @ collector,
                      batchCollector := [], messagesProcessed := n\<rparr>
              else st\<lparr>memberMap := mm, batchCollector := collector, messagesProcessed := n\<rparr>))"

definition onEnd :: "ParserState \<Rightarrow> ParserState" where
  "onEnd st =
     (if length (batchCollector st) > 0
      then st\<lparr>messageBatch := messageBatch st @ batchCollector st\<rparr>
      else st)"

text \<open>
  \<open>for (let i = 0; i < messageBatch.length; i += batchSize) yield messageBatch.slice(i, i + batchSize)\<close>.
  With \<open>batchSize = 0\<close> and a message to send the loop never ends: the value is \<open>None\<close>.
\<close>

partial_function (option) yieldBatches :: "nat \<Rightarrow> nat \<Rightarrow> ParsedMessage list \<Rightarrow> ParseEvent list option" where
  "yieldBatches batchSize i batch =
     (if i < length batch
      then Option.bind (yieldBatches batchSize (i + batchSize) batch)
             (\<lambda>rest. Some (MessagesEvent (take batchSize (drop i batch)) # rest))
      else Some [])"

declare yieldBatches.simps [code]

text \<open>
  The head of the file gives the meta event: the default name (four code units) and the
  type \<open>group\<close> when no \<open>chatInfo\<close> was read.
\<close>

definition metaOf :: "ParserUtils \<Rightarrow> (jsstring \<times> jsstring) option \<Rightarrow> ParsedMeta" where
  "metaOf u info =
     (case (case info of None \<Rightarrow> ([26410, 30693, 32676, 32842], ascii ''group'') | Some i \<Rightarrow> i) of
        (nm, ty) \<Rightarrow>
          \<lparr>metaName = nm, platform = platformQQ u,
           chatType = (if ty = ascii ''group'' then chatTypeGROUP u else chatTypePRIVATE u)\<rparr>)"

text \<open>
  The generator, for a given processMessage: the events it yields, and the exception it
  ends with if the stream fails (after the first two events); \<open>None\<close> if it never ends.
  parseLegacy and parseV4 have the same text apart from their processMessage, so both are
  this generator.
\<close>

definition parseWith ::
  "('r \<Rightarrow> (jsstring \<times> ParsedMember) list \<Rightarrow> ParsedMessage option \<times> (jsstring \<times> ParsedMember) list) \<Rightarrow>
   ParserUtils \<Rightarrow> nat \<Rightarrow> 'r SourceFile \<Rightarrow> (ParseEvent list \<times> Exn option) option" where
  "parseWith processMessage u batchSize file =
     (let initial =
            [ProgressEvent \<lparr>stage = ascii ''parsing'', bytesRead = 0,
                            progressTotalBytes = totalBytes file, progressMessages = 0,
                            progressText = [24320, 22987, 35299, 26512, 46, 46, 46]\<rparr>,
             MetaEvent (metaOf u (chatInfo file))]
      in case streamError file of
           Some e \<Rightarrow> Some (initial, Some e)
         | None \<Rightarrow>
             (let st = onEnd (fold (onData processMessage batchSize) (records file)
                                initialParserState)
              in Option.bind (yieldBatches batchSize 0 (messageBatch st))
                   (\<lambda>batches.
                      Some (initial
                            @ [MembersEvent (map snd (memberMap st))]
                            @ batches
                            @ [ProgressEvent \<lparr>stage = ascii ''done'',
                                  bytesRead = totalBytes file,
                                  progressTotalBytes = totalBytes file,
                                  progressMessages = messagesProcessed st,
                                  progressText = [35299, 26512, 23436, 25104]\<rparr>,
                               DoneEvent (messagesProcessed st) (length (memberMap st))],
                            None))))"

definition parseLegacy ::
  "ParserUtils \<Rightarrow> nat \<Rightarrow> LegacyMessage SourceFile \<Rightarrow> (ParseEvent list \<times> Exn option) option" where
  "parseLegacy u batchSize file = parseWith (processMessageLegacy u) u batchSize file"

definition parseV4 ::
  "ParserUtils \<Rightarrow> nat \<Rightarrow> V4Message SourceFile \<Rightarrow> (ParseEvent list \<times> Exn option) option" where
  "parseV4 u batchSize file = parseWith (processMessageV4 u) u batchSize file"

text \<open>The concatenation of the message batches of an event sequence.\<close>

fun emittedMessages :: "ParseEvent list \<Rightarrow> ParsedMessage list" where
  "emittedMessages [] = []"
| "emittedMessages (MessagesEvent ms # evs) = ms @ emittedMessages evs"
| "emittedMessages (_ # evs) = emittedMessages evs"

text \<open>
  The message a record gives, read off processMessage with an empty member map (the
  message does not depend on the map).
\<close>

definition legacyMessage :: "ParserUtils \<Rightarrow> LegacyMessage \<Rightarrow> ParsedMessage option" where
  "legacyMessage u msg = fst (processMessageLegacy u msg [])"

definition v4Message :: "ParserUtils \<Rightarrow> V4Message \<Rightarrow> ParsedMessage option" where
  "v4Message u msg = fst (processMessageV4 u msg [])"

text \<open>The timestamp check of processMessage: \<open>timestamp === null || !isValidYear(timestamp)\<close>.\<close>

definition invalidTimestamp :: "ParserUtils \<Rightarrow> RawTimestamp \<Rightarrow> bool" where
  "invalidTimestamp u raw =
     (case parseTimestamp u raw of None \<Rightarrow> True | Some t \<Rightarrow> \<not> isValidYear u t)"

subsection \<open>Records that lack their sender or content object\<close>

text \<open>
  The stream delivers whatever JSON value stands at \<open>messages.N\<close>: the interfaces
  LegacyMessage and V4Message are not checked at run time. In a raw record the objects
  \<open>sender\<close> and \<open>content\<close> may be absent (\<open>None\<close>: the key is missing, or its value is
  \<open>null\<close>). Reading a property of an absent object throws a TypeError, with the message
  text \<open>typeErrorText\<close> of the runtime.
\<close>

record RawLegacyMessage =
  rlSender :: "RawSender option"
  rlTimestamp :: int
  rlType :: "jsstring option"
  rlSystem :: bool
  rlRecalled :: bool
  rlContent :: "RawContent option"

record RawV4Message =
  r4Sender :: "RawSender option"
  r4Timestamp :: jsstring
  r4MessageType :: "int option"
  r4IsSystemMessage :: bool
  r4IsRecalled :: bool
  r4Content :: "RawContent option"

text \<open>
  \<open>msg.content?.text || ''\<close>, the marker of a recalled message, and \<open>textContent || null\<close>:
  the optional chaining makes this read safe where the content object is absent.
\<close>

definition textContentOfRaw :: "bool \<Rightarrow> RawContent option \<Rightarrow> jsstring option" where
  "textContentOfRaw recalled c =
     (let text0 = (case c of None \<Rightarrow> [] | Some c1 \<Rightarrow> contentText c1);
          textContent = (if recalled then recalledMarker @ text0 else text0)
      in if textContent = [] then None else Some textContent)"

text \<open>
  processMessage of the legacy parser on a raw record: what the call ends with (\<open>Inl\<close> the
  exception it throws, \<open>Inr\<close> the value it returns) and the member map after the call.
  \<open>msg.sender.uin\<close> is read first, before the guard \<open>if (!platformId) return null\<close>, and
  throws where the sender object is absent. convertMessageType reads \<open>content.resources\<close>
  with no optional chaining: it throws where the content object is absent, for a record
  that is not a system message and has passed both checks (its member is then already
  registered).
\<close>

definition processRawLegacy ::
  "ParserUtils \<Rightarrow> jsstring \<Rightarrow> RawLegacyMessage \<Rightarrow> (jsstring \<times> ParsedMember) list \<Rightarrow>
   (Exn + ParsedMessage option) \<times> (jsstring \<times> ParsedMember) list" where
  "processRawLegacy u typeErrorText msg members0 =
     (case rlSender msg of
        None \<Rightarrow> (Inl (Error typeErrorText), members0)
      | Some sndr \<Rightarrow>
          (case resolvePlatformId sndr of
             None \<Rightarrow> (Inr None, members0)
           | Some pid \<Rightarrow>
               (let sName = (if rawName sndr \<noteq> [] then rawName sndr else pid);
                    members1 = mapSet members0 pid \<lparr>memberPlatformId = pid, memberName = sName\<rparr>
                in case parseTimestamp u (TsNumber (rlTimestamp msg)) of
                     None \<Rightarrow> (Inr None, members1)
                   | Some t \<Rightarrow>
                       if \<not> isValidYear u t then (Inr None, members1)
                       else if rlSystem msg
                       then (Inr (Some \<lparr>senderPlatformId = pid, senderName = sName,
                                        timestamp = t, msgType = SYSTEM,
                                        msgContent = textContentOfRaw (rlRecalled msg) (rlContent msg)\<rparr>),
                             members1)
                       else
                         (case rlContent msg of
                            None \<Rightarrow> (Inl (Error typeErrorText), members1)
                          | Some c \<Rightarrow>
                              (Inr (Some \<lparr>senderPlatformId = pid, senderName = sName,
                                          timestamp = t,
                                          msgType = convertMessageTypeLegacy (rlType msg) c,
                                          msgContent = textContentOfRaw (rlRecalled msg) (rlContent msg)\<rparr>),
                               members1)))))"

text \<open>processMessage of the V4 parser on a raw record.\<close>

definition processRawV4 ::
  "ParserUtils \<Rightarrow> jsstring \<Rightarrow> RawV4Message \<Rightarrow> (jsstring \<times> ParsedMember) list \<Rightarrow>
   (Exn + ParsedMessage option) \<times> (jsstring \<times> ParsedMember) list" where
  "processRawV4 u typeErrorText msg members0 =
     (case r4Sender msg of
        None \<Rightarrow> (Inl (Error typeErrorText), members0)
      | Some sndr \<Rightarrow>
          (case resolvePlatformId sndr of
             None \<Rightarrow> (Inr None, members0)
           | Some pid \<Rightarrow>
               (let sName = (if rawName sndr \<noteq> [] then rawName sndr else pid);
                    members1 = mapSet members0 pid \<lparr>memberPlatformId = pid, memberName = sName\<rparr>
                in case parseTimestamp u (TsString (r4Timestamp msg)) of
                     None \<Rightarrow> (Inr None, members1)
                   | Some t \<Rightarrow>
                       if \<not> isValidYear u t then (Inr None, members1)
                       else if r4IsSystemMessage msg
                       then (Inr (Some \<lparr>senderPlatformId = pid, senderName = sName,
                                        timestamp = t, msgType = SYSTEM,
                                        msgContent = textContentOfRaw (r4IsRecalled msg) (r4Content msg)\<rparr>),
                             members1)
                       else
                         (case r4Content msg of
                            None \<Rightarrow> (Inl (Error typeErrorText), members1)
                          | Some c \<Rightarrow>
                              (Inr (Some \<lparr>senderPlatformId = pid, senderName = sName,
                                          timestamp = t,
                                          msgType = convertMessageTypeV4 (r4MessageType msg) c,
                                          msgContent = textContentOfRaw (r4IsRecalled msg) (r4Content msg)\<rparr>),
                               members1)))))"







text \<open>
  What processMessage ends with on a raw record, read off with an empty member map (it
  does not depend on the map), and the messages of the records of a list that give one.
\<close>

definition rawLegacyMessage ::
  "ParserUtils \<Rightarrow> jsstring \<Rightarrow> RawLegacyMessage \<Rightarrow> Exn + ParsedMessage option" where
  "rawLegacyMessage u typeErrorText msg = fst (processRawLegacy u typeErrorText msg [])"

definition rawV4Message ::
  "ParserUtils \<Rightarrow> jsstring \<Rightarrow> RawV4Message \<Rightarrow> Exn + ParsedMessage option" where
  "rawV4Message u typeErrorText msg = fst (processRawV4 u typeErrorText msg [])"


subsection \<open>Example files for the parsers\<close>

text \<open>
  A small export in each format, read in a UTC zone. Ann (1001) writes at
  2023-11-14 22:13:20 UTC and then, later in the file, at 2020-09-13 12:26:40 UTC; the
  only record of Bob (1002) is dated 1999-01-01; one record has no sender identifier.
\<close>

definition exampleReadIso :: "jsstring \<Rightarrow> int option" where
  "exampleReadIso s =
     (if s = ascii ''2023-11-14T22:13:20.000Z'' then Some 1700000000
      else if s = ascii ''2020-09-13T12:26:40.000Z'' then Some 1600000000
      else if s = ascii ''1999-01-01T00:00:00.000Z'' then Some 915148800
      else None)"

definition exampleUtils :: ParserUtils where
  "exampleUtils = specUtils 0 exampleReadIso"

definition legacyRecord :: "string \<Rightarrow> string \<Rightarrow> int \<Rightarrow> string \<Rightarrow> LegacyMessage" where
  "legacyRecord i n ms t =
     \<lparr>lgSender = \<lparr>uid = None, uin = Some (ascii i), rawName = ascii n\<rparr>,
      lgTimestamp = ms, lgType = Some (ascii ''type_1''), lgSystem = False,
      lgRecalled = False,
      lgContent = \<lparr>contentText = ascii t, contentResources = [], contentElements = []\<rparr>\<rparr>"

definition exampleLegacyFile :: "LegacyMessage SourceFile" where
  "exampleLegacyFile =
     \<lparr>totalBytes = 600, chatInfo = Some (ascii ''chat'', ascii ''group''),
      records = [legacyRecord ''1001'' ''Ann'' 1700000000000 ''later'',
                 legacyRecord ''1002'' ''Bob'' 915148800000 ''old'',
                 legacyRecord [] ''Nobody'' 1650000000000 ''lost'',
                 legacyRecord ''1001'' ''Ann'' 1600000000000 ''earlier''],
      streamError = None\<rparr>"

definition v4Record :: "string \<Rightarrow> string \<Rightarrow> string \<Rightarrow> string \<Rightarrow> V4Message" where
  "v4Record i n stamp t =
     \<lparr>v4Sender = \<lparr>uid = Some (ascii i), uin = None, rawName = ascii n\<rparr>,
      v4Timestamp = ascii stamp, v4MessageType = Some 1, v4IsSystemMessage = False,
      v4IsRecalled = False,
      v4Content = \<lparr>contentText = ascii t, contentResources = [], contentElements = []\<rparr>\<rparr>"

definition exampleV4File :: "V4Message SourceFile" where
  "exampleV4File =
     \<lparr>totalBytes = 600, chatInfo = Some (ascii ''chat'', ascii ''group''),
      records = [v4Record ''1001'' ''Ann'' ''2023-11-14T22:13:20.000Z'' ''later'',
                 v4Record ''1002'' ''Bob'' ''1999-01-01T00:00:00.000Z'' ''old'',
                 v4Record [] ''Nobody'' ''2020-09-13T12:26:40.000Z'' ''lost'',
                 v4Record ''1001'' ''Ann'' ''2020-09-13T12:26:40.000Z'' ''earlier''],
      streamError = None\<rparr>"










section \<open>Theorems\<close>

subsection \<open>Monologue analysis\<close>

lemma monologueExample1_result:
  "getMonologueAnalysis monologueExample1 =
     \<lparr>rank = [\<lparr>rankMemberId = 1, rankPlatformId = ascii ''X'', rankName = ascii ''X'',
               rankStats = \<lparr>totalStreaks = 1, maxCombo = 4, lowStreak = 1, midStreak = 0,
                            highStreak = 0\<rparr>\<rparr>],
      maxComboRecord = Some (\<lparr>comboMemberId = 1, comboLength = 4, comboStartTs = 0\<rparr>,
                             ascii ''X'', ascii ''X'')\<rparr>"
  by (simp add: getMonologueAnalysis_def monologueExample1_def monoRow_def monologueStep_def
      finishStreak_def initialMonologueState_def initialStreak_def MAX_INTERVAL_def
      bumpStats_def newMemberStats_def memberInfoOf_def Let_def)

lemma monologueExample2_result:
  "getMonologueAnalysis monologueExample2 = \<lparr>rank = [], maxComboRecord = None\<rparr>"
  by (simp add: getMonologueAnalysis_def monologueExample2_def monoRow_def monologueStep_def
      finishStreak_def initialMonologueState_def initialStreak_def MAX_INTERVAL_def
      bumpStats_def newMemberStats_def memberInfoOf_def Let_def)

lemma mapGet_mapSet_same: "mapGet (mapSet m k v) k = Some v"
  by (induction m) auto

lemma mapGet_append_new: "\<not> mapHas m k \<Longrightarrow> mapGet (m @ [(k, v)]) k = Some v"
  by (induction m) (auto split: if_splits)

lemma mapGet_None: "\<not> mapHas m k \<Longrightarrow> mapGet m k = None"
  by (induction m) (auto split: if_splits)

lemma mapHas_mapGet: "mapHas m k \<Longrightarrow> \<exists>v. mapGet m k = Some v"
  by (induction m) (auto split: if_splits)

lemma finishStreak_short: "streakCount (currentStreak st) < 3 \<Longrightarrow> finishStreak st = st"
  by (simp add: finishStreak_def Let_def)

lemma finishStreak_counted:
  assumes "3 \<le> streakCount (currentStreak st)"
  shows "mapGet (memberStats (finishStreak st)) (streakSenderId (currentStreak st)) =
           Some (bumpStats (streakCount (currentStreak st))
                  (case mapGet (memberStats st) (streakSenderId (currentStreak st)) of
                     Some s \<Rightarrow> s | None \<Rightarrow> newMemberStats))"
proof (cases "mapHas (memberStats st) (streakSenderId (currentStreak st))")
  case True
  then show ?thesis
    using assms by (simp add: finishStreak_def Let_def mapGet_mapSet_same)
next
  case False
  have "mapGet (memberStats st) (streakSenderId (currentStreak st)) = None"
    using False by (rule mapGet_None)
  then show ?thesis
    using assms False
    by (simp add: finishStreak_def Let_def mapGet_mapSet_same mapGet_append_new)
qed

lemma bumpStats_tiers:
  "totalStreaks (bumpStats n s) = totalStreaks s + 1"
  "maxCombo (bumpStats n s) = max (maxCombo s) n"
  "n < 5 \<Longrightarrow> lowStreak (bumpStats n s) = lowStreak s + 1
     \<and> midStreak (bumpStats n s) = midStreak s \<and> highStreak (bumpStats n s) = highStreak s"
  "5 \<le> n \<Longrightarrow> n < 10 \<Longrightarrow> lowStreak (bumpStats n s) = lowStreak s
     \<and> midStreak (bumpStats n s) = midStreak s + 1 \<and> highStreak (bumpStats n s) = highStreak s"
  "10 \<le> n \<Longrightarrow> lowStreak (bumpStats n s) = lowStreak s
     \<and> midStreak (bumpStats n s) = midStreak s \<and> highStreak (bumpStats n s) = highStreak s + 1"
  by (simp_all add: bumpStats_def Let_def)

lemma finishStreak_memberInfo:
  "memberStats (finishStreak (st\<lparr>memberInfo := i\<rparr>)) = memberStats (finishStreak st)"
  "globalMaxCombo (finishStreak (st\<lparr>memberInfo := i\<rparr>)) = globalMaxCombo (finishStreak st)"
  by (simp_all add: finishStreak_def Let_def)

lemma monologueStep_extend:
  assumes "senderId msg = streakSenderId (currentStreak st)"
    and "ts msg - lastTs (currentStreak st) \<le> 300"
  shows "currentStreak (monologueStep msg st) =
           (currentStreak st)\<lparr>streakCount := streakCount (currentStreak st) + 1,
                               lastTs := ts msg\<rparr>"
    and "memberStats (monologueStep msg st) = memberStats st"
    and "globalMaxCombo (monologueStep msg st) = globalMaxCombo st"
  using assms by (simp_all add: monologueStep_def Let_def MAX_INTERVAL_def)

lemma monologueStep_break:
  assumes "senderId msg \<noteq> streakSenderId (currentStreak st)
           \<or> 300 < ts msg - lastTs (currentStreak st)"
  shows "currentStreak (monologueStep msg st) =
           \<lparr>streakSenderId = senderId msg, streakCount = 1, startTs = ts msg, lastTs = ts msg\<rparr>"
    and "memberStats (monologueStep msg st) = memberStats (finishStreak st)"
    and "globalMaxCombo (monologueStep msg st) = globalMaxCombo (finishStreak st)"
proof -
  have no: "\<not> (senderId msg = streakSenderId (currentStreak st)
              \<and> ts msg - lastTs (currentStreak st) \<le> 300)"
    using assms by auto
  show "currentStreak (monologueStep msg st) =
           \<lparr>streakSenderId = senderId msg, streakCount = 1, startTs = ts msg, lastTs = ts msg\<rparr>"
    using no by (auto simp add: monologueStep_def Let_def MAX_INTERVAL_def)
  show "memberStats (monologueStep msg st) = memberStats (finishStreak st)"
    using no by (auto simp add: monologueStep_def Let_def MAX_INTERVAL_def finishStreak_memberInfo)
  show "globalMaxCombo (monologueStep msg st) = globalMaxCombo (finishStreak st)"
    using no by (auto simp add: monologueStep_def Let_def MAX_INTERVAL_def finishStreak_memberInfo)
qed

text \<open>
  C9, as the specification states it, fails on the code: the streak of four messages of
  sender X at t = 0, 100, 200, 250 is counted, but in the low tier (3 to 4 messages), not
  in the mid tier: \<open>midStreak\<close> stays 0 and \<open>lowStreak\<close> becomes 1.
\<close>

theorem C9_length4_is_low_tier_counterexample:
  "map (midStreak \<circ> rankStats) (rank (getMonologueAnalysis monologueExample1)) = [0]
   \<and> map (lowStreak \<circ> rankStats) (rank (getMonologueAnalysis monologueExample1)) = [1]
   \<and> map (maxCombo \<circ> rankStats) (rank (getMonologueAnalysis monologueExample1)) = [4]"
  by (simp add: monologueExample1_result)

text \<open>
  C9 (amended). Monologue analysis: a message extends the current streak exactly when it
  has the streak's sender and comes at most 300 seconds after the streak's last message;
  any other message finishes the streak and starts a new one of length 1. A finished
  streak of fewer than 3 messages changes nothing; one of at least 3 messages adds one
  streak to its sender, in the low tier for 3 to 4 messages, the mid tier for 5 to 9 and
  the high tier for 10 or more. The messages of sender X at t = 0, 100, 200, 250 are one
  counted streak of length 4 in the low tier; with a message of sender Y at t = 120 in
  between, there are two streaks of X of length 2 each and nothing is counted.
\<close>

theorem C9_monologue_streaks:
  "(senderId msg = streakSenderId (currentStreak st) \<and> ts msg - lastTs (currentStreak st) \<le> 300
      \<longrightarrow> currentStreak (monologueStep msg st) =
            (currentStreak st)\<lparr>streakCount := streakCount (currentStreak st) + 1,
                                lastTs := ts msg\<rparr>
          \<and> memberStats (monologueStep msg st) = memberStats st)
   \<and> (senderId msg \<noteq> streakSenderId (currentStreak st) \<or> 300 < ts msg - lastTs (currentStreak st)
      \<longrightarrow> currentStreak (monologueStep msg st) =
            \<lparr>streakSenderId = senderId msg, streakCount = 1, startTs = ts msg, lastTs = ts msg\<rparr>
          \<and> memberStats (monologueStep msg st) = memberStats (finishStreak st))
   \<and> (streakCount (currentStreak st) < 3 \<longrightarrow> finishStreak st = st)
   \<and> (3 \<le> streakCount (currentStreak st)
      \<longrightarrow> mapGet (memberStats (finishStreak st)) (streakSenderId (currentStreak st)) =
            Some (bumpStats (streakCount (currentStreak st))
                   (case mapGet (memberStats st) (streakSenderId (currentStreak st)) of
                      Some s \<Rightarrow> s | None \<Rightarrow> newMemberStats)))
   \<and> totalStreaks (bumpStats n s) = totalStreaks s + 1
   \<and> (n < 5 \<longrightarrow> lowStreak (bumpStats n s) = lowStreak s + 1
          \<and> midStreak (bumpStats n s) = midStreak s \<and> highStreak (bumpStats n s) = highStreak s)
   \<and> (5 \<le> n \<and> n < 10 \<longrightarrow> lowStreak (bumpStats n s) = lowStreak s
          \<and> midStreak (bumpStats n s) = midStreak s + 1 \<and> highStreak (bumpStats n s) = highStreak s)
   \<and> (10 \<le> n \<longrightarrow> lowStreak (bumpStats n s) = lowStreak s
          \<and> midStreak (bumpStats n s) = midStreak s \<and> highStreak (bumpStats n s) = highStreak s + 1)
   \<and> getMonologueAnalysis monologueExample1 =
       \<lparr>rank = [\<lparr>rankMemberId = 1, rankPlatformId = ascii ''X'', rankName = ascii ''X'',
                 rankStats = \<lparr>totalStreaks = 1, maxCombo = 4, lowStreak = 1, midStreak = 0,
                              highStreak = 0\<rparr>\<rparr>],
        maxComboRecord = Some (\<lparr>comboMemberId = 1, comboLength = 4, comboStartTs = 0\<rparr>,
                               ascii ''X'', ascii ''X'')\<rparr>
   \<and> getMonologueAnalysis monologueExample2 = \<lparr>rank = [], maxComboRecord = None\<rparr>"
  using monologueStep_extend [of msg st] monologueStep_break [of msg st]
    finishStreak_short [of st] finishStreak_counted [of st] bumpStats_tiers [of n s]
    monologueExample1_result monologueExample2_result
  by blast

text \<open>
  Witness for C9: the streak of sender 1 with 4 messages, last at t = 250, is extended by
  a message of sender 1 at t = 550 (gap 300) and broken by one at t = 551; finishing it
  counts one low-tier streak.
\<close>

theorem C9_monologue_streaks_witness:
  "streakCount (currentStreak (monologueStep (monoRow 9 1 550)
       (initialMonologueState\<lparr>currentStreak :=
          \<lparr>streakSenderId = 1, streakCount = 4, startTs = 0, lastTs = 250\<rparr>\<rparr>))) = 5
   \<and> mapGet (memberStats (finishStreak
       (initialMonologueState\<lparr>currentStreak :=
          \<lparr>streakSenderId = 1, streakCount = 4, startTs = 0, lastTs = 250\<rparr>\<rparr>))) 1
     = Some \<lparr>totalStreaks = 1, maxCombo = 4, lowStreak = 1, midStreak = 0, highStreak = 0\<rparr>
   \<and> midStreak (bumpStats 5 newMemberStats) = 1
   \<and> highStreak (bumpStats 10 newMemberStats) = 1"
  using C9_monologue_streaks [of "monoRow 9 1 550"
      "initialMonologueState\<lparr>currentStreak :=
          \<lparr>streakSenderId = 1, streakCount = 4, startTs = 0, lastTs = 250\<rparr>\<rparr>" 5 newMemberStats]
    C9_monologue_streaks [of "monoRow 9 1 550"
      "initialMonologueState\<lparr>currentStreak :=
          \<lparr>streakSenderId = 1, streakCount = 4, startTs = 0, lastTs = 250\<rparr>\<rparr>" 10 newMemberStats]
  by (simp add: monoRow_def initialMonologueState_def bumpStats_def newMemberStats_def Let_def)

subsection \<open>Repeat-chain analysis\<close>

lemmas repeat_defs =
  repeatScan_def repeatStep_def processRepeatChain_def initialRepeatState_def
  repeatRow_def lastSender_def increment_def trim_def isJsWhiteSpace_def ascii_def Let_def

lemma repeatStep_push:
  assumes "Some (trim (content msg)) = currentContent st"
    and "lastSender (repeatChain st) \<noteq> Some (senderId msg)"
  shows "repeatChain (repeatStep msg st) =
           repeatChain st @ [\<lparr>entrySenderId = senderId msg, entryContent = trim (content msg),
                               entryTs = ts msg\<rparr>]"
  using assms by (simp add: repeatStep_def Let_def)

lemma repeatStep_same_sender:
  assumes "Some (trim (content msg)) = currentContent st"
    and "lastSender (repeatChain st) = Some (senderId msg)"
  shows "repeatChain (repeatStep msg st) = repeatChain st"
  using assms by (simp add: repeatStep_def Let_def)

lemma processRepeatChain_fields:
  "currentContent (processRepeatChain ch b st) = currentContent st"
  "repeatChain (processRepeatChain ch b st) = repeatChain st"
  by (simp_all add: processRepeatChain_def Let_def)

lemma repeatStep_content_change:
  assumes "Some (trim (content msg)) \<noteq> currentContent st"
  shows "repeatChain (repeatStep msg st) =
           [\<lparr>entrySenderId = senderId msg, entryContent = trim (content msg), entryTs = ts msg\<rparr>]"
    and "currentContent (repeatStep msg st) = Some (trim (content msg))"
  using assms by (simp_all add: repeatStep_def Let_def)

lemma repeatStep_append_only:
  assumes "repeatChain st \<noteq> []"
    and "repeatChain (repeatStep msg st) = repeatChain st @ [e]"
  shows "Some (trim (content msg)) = currentContent st
         \<and> lastSender (repeatChain st) \<noteq> Some (senderId msg)"
proof (cases "Some (trim (content msg)) = currentContent st")
  case True
  show ?thesis
  proof (cases "lastSender (repeatChain st) = Some (senderId msg)")
    case True
    with \<open>Some (trim (content msg)) = currentContent st\<close> assms(2) show ?thesis
      by (simp add: repeatStep_same_sender)
  next
    case False
    with \<open>Some (trim (content msg)) = currentContent st\<close> show ?thesis by simp
  qed
next
  case False
  then have "length (repeatChain (repeatStep msg st)) = 1"
    by (simp add: repeatStep_content_change)
  moreover have "length (repeatChain st @ [e]) \<ge> 2"
    using assms(1) by (cases "repeatChain st") simp_all
  ultimately show ?thesis using assms(2) by simp
qed

lemma processRepeatChain_short: "length chain < 3 \<Longrightarrow> processRepeatChain chain b st = st"
  by (simp add: processRepeatChain_def)

lemma repeatExample1_chain:
  "repeatChain (repeatScan repeatExample1) =
     [\<lparr>entrySenderId = 1, entryContent = ascii ''hi'', entryTs = 1\<rparr>,
      \<lparr>entrySenderId = 2, entryContent = ascii ''hi'', entryTs = 2\<rparr>,
      \<lparr>entrySenderId = 1, entryContent = ascii ''hi'', entryTs = 3\<rparr>]"
  by (simp add: repeatExample1_def repeat_defs)

lemma repeatExample1_result:
  "getRepeatAnalysis repeatExample1 =
     \<lparr>originators = [\<lparr>repMemberId = 1, repPlatformId = ascii ''a'', repName = ascii ''A'',
                       repCount = 1\<rparr>],
      initiators = [\<lparr>repMemberId = 2, repPlatformId = ascii ''b'', repName = ascii ''B'',
                      repCount = 1\<rparr>],
      breakers = [],
      chainLengthDistribution = [(3, 1)],
      hotContents = [\<lparr>hotContent = ascii ''hi'', hotCount = 1, hotMaxChainLength = 3,
                       hotOriginatorName = ascii ''A'', hotLastTs = 1\<rparr>],
      resultTotalRepeatChains = 1\<rparr>"
  by (simp add: getRepeatAnalysis_def buildRankList_def List.map_filter_def
      repeatExample1_def repeat_defs)

lemma repeatExample2_chain:
  "repeatChain (repeatScan (take 1 repeatExample2)) =
     [\<lparr>entrySenderId = 1, entryContent = ascii ''hi'', entryTs = 1\<rparr>]"
  "repeatChain (repeatScan (take 2 repeatExample2)) =
     [\<lparr>entrySenderId = 1, entryContent = ascii ''hi'', entryTs = 1\<rparr>]"
  "repeatChain (repeatScan repeatExample2) =
     [\<lparr>entrySenderId = 1, entryContent = ascii ''hi'', entryTs = 1\<rparr>,
      \<lparr>entrySenderId = 2, entryContent = ascii ''hi'', entryTs = 3\<rparr>]"
  by (simp_all add: repeatExample2_def repeat_defs)

lemma repeatExample2_result:
  "getRepeatAnalysis repeatExample2 =
     \<lparr>originators = [], initiators = [], breakers = [], chainLengthDistribution = [],
      hotContents = [], resultTotalRepeatChains = 0\<rparr>"
  by (simp add: getRepeatAnalysis_def buildRankList_def List.map_filter_def
      repeatExample2_def repeat_defs)

text \<open>
  C7. Repeat-chain analysis: a message is appended to the chain exactly when its trimmed
  content equals the current chain content and its sender differs from the sender of the
  chain's last entry (a message with the same content and the same sender leaves the chain
  as it is, and a non-empty chain grows by an entry only under that condition); a chain
  flushed with fewer than 3 entries produces no credit (the state is unchanged). For
  [A:"hi", B:"hi", A:"hi"] the chain has the three entries A, B, A and the result credits
  originator A and initiator B once; for [A:"hi", A:"hi", B:"hi"] the chain is [A] after
  the second message and [A, B] at the end, and the result has no ranked entry.
\<close>

theorem C7_repeat_chain:
  "(Some (trim (content msg)) = currentContent st
      \<and> lastSender (repeatChain st) \<noteq> Some (senderId msg)
     \<longrightarrow> repeatChain (repeatStep msg st) =
          repeatChain st @ [\<lparr>entrySenderId = senderId msg, entryContent = trim (content msg),
                              entryTs = ts msg\<rparr>])
   \<and> (Some (trim (content msg)) = currentContent st
      \<and> lastSender (repeatChain st) = Some (senderId msg)
     \<longrightarrow> repeatChain (repeatStep msg st) = repeatChain st)
   \<and> (repeatChain st \<noteq> [] \<and> repeatChain (repeatStep msg st) = repeatChain st @ [e]
     \<longrightarrow> Some (trim (content msg)) = currentContent st
         \<and> lastSender (repeatChain st) \<noteq> Some (senderId msg))
   \<and> (length chain < 3 \<longrightarrow> processRepeatChain chain b st = st)
   \<and> repeatChain (repeatScan repeatExample1) =
       [\<lparr>entrySenderId = 1, entryContent = ascii ''hi'', entryTs = 1\<rparr>,
        \<lparr>entrySenderId = 2, entryContent = ascii ''hi'', entryTs = 2\<rparr>,
        \<lparr>entrySenderId = 1, entryContent = ascii ''hi'', entryTs = 3\<rparr>]
   \<and> getRepeatAnalysis repeatExample1 =
       \<lparr>originators = [\<lparr>repMemberId = 1, repPlatformId = ascii ''a'', repName = ascii ''A'',
                         repCount = 1\<rparr>],
        initiators = [\<lparr>repMemberId = 2, repPlatformId = ascii ''b'', repName = ascii ''B'',
                        repCount = 1\<rparr>],
        breakers = [],
        chainLengthDistribution = [(3, 1)],
        hotContents = [\<lparr>hotContent = ascii ''hi'', hotCount = 1, hotMaxChainLength = 3,
                         hotOriginatorName = ascii ''A'', hotLastTs = 1\<rparr>],
        resultTotalRepeatChains = 1\<rparr>
   \<and> repeatChain (repeatScan (take 2 repeatExample2)) =
       [\<lparr>entrySenderId = 1, entryContent = ascii ''hi'', entryTs = 1\<rparr>]
   \<and> repeatChain (repeatScan repeatExample2) =
       [\<lparr>entrySenderId = 1, entryContent = ascii ''hi'', entryTs = 1\<rparr>,
        \<lparr>entrySenderId = 2, entryContent = ascii ''hi'', entryTs = 3\<rparr>]
   \<and> getRepeatAnalysis repeatExample2 =
       \<lparr>originators = [], initiators = [], breakers = [], chainLengthDistribution = [],
        hotContents = [], resultTotalRepeatChains = 0\<rparr>"
  using repeatStep_push [of msg st] repeatStep_same_sender [of msg st]
    repeatStep_append_only [of st msg e] processRepeatChain_short [of chain b st]
    repeatExample1_chain repeatExample1_result repeatExample2_chain(2,3) repeatExample2_result
  by blast

text \<open>
  Witness for C7: after A:"hi", the message B:" hi " (same trimmed content, other sender)
  is appended and a second A:"hi" is not; flushing the two-entry chain changes nothing.
\<close>

theorem C7_repeat_chain_witness:
  "repeatChain (repeatStep (repeatRow 2 2\<lparr>content := ascii '' hi ''\<rparr>) (repeatScan [repeatRow 1 1])) =
     [\<lparr>entrySenderId = 1, entryContent = ascii ''hi'', entryTs = 1\<rparr>,
      \<lparr>entrySenderId = 2, entryContent = ascii ''hi'', entryTs = 2\<rparr>]
   \<and> repeatChain (repeatStep (repeatRow 2 1) (repeatScan [repeatRow 1 1])) =
     [\<lparr>entrySenderId = 1, entryContent = ascii ''hi'', entryTs = 1\<rparr>]
   \<and> processRepeatChain (repeatChain (repeatScan repeatExample2)) None (repeatScan repeatExample2)
     = repeatScan repeatExample2"
  using C7_repeat_chain [of "repeatRow 2 2\<lparr>content := ascii '' hi ''\<rparr>" "repeatScan [repeatRow 1 1]"
      "\<lparr>entrySenderId = 2, entryContent = ascii ''hi'', entryTs = 2\<rparr>"
      "repeatChain (repeatScan repeatExample2)" None]
    C7_repeat_chain [of "repeatRow 2 1" "repeatScan [repeatRow 1 1]"
      "\<lparr>entrySenderId = 2, entryContent = ascii ''hi'', entryTs = 2\<rparr>"
      "repeatChain (repeatScan repeatExample2)" None]
    C7_repeat_chain [of "repeatRow 2 1" "repeatScan repeatExample2"
      "\<lparr>entrySenderId = 2, entryContent = ascii ''hi'', entryTs = 2\<rparr>"
      "repeatChain (repeatScan repeatExample2)" None]
  by (simp add: repeat_defs)

subsection \<open>Night-owl analysis: the adjusted date\<close>

text \<open>
  Where the local zone is UTC the adjusted date is the local date, moved one day back
  for the hours before 05:00.
\<close>

lemma getAdjustedDate_utc:
  "getAdjustedDate 0 t = civilFromDays (t div 86400 - (if getHours 0 t < 5 then 1 else 0))"
proof -
  have "(t - 86400) div 86400 = t div 86400 - 1"
    by simp
  then show ?thesis
    by (simp add: getAdjustedDate_def toISODate_def setDatePrevious_def Let_def)
qed

text \<open>
  C8 (the code departs from the claim). In a zone at UTC+8 the message at 05:00 local time
  on 2024-01-02 (epoch second 1704142800) gets the adjusted date 2024-01-01 instead of its
  own calendar day, and the message at 04:59 local time on 2024-01-02 (epoch second
  1704142740) gets 2023-12-31 instead of the previous calendar day 2024-01-01: the hour
  is read from the local clock, the date is printed in UTC.
\<close>

theorem C8_adjusted_date_utc8:
  "getHours 28800 1704142800 = 5 \<and> getMinutes 28800 1704142800 = 0
   \<and> localDate 28800 1704142800 = (2024, 1, 2)
   \<and> getAdjustedDate 28800 1704142800 = (2024, 1, 1)
   \<and> getHours 28800 1704142740 = 4 \<and> getMinutes 28800 1704142740 = 59
   \<and> localDate 28800 1704142740 = (2024, 1, 2)
   \<and> getAdjustedDate 28800 1704142740 = (2023, 12, 31)"
  by code_simp

subsection \<open>Merge engine: keys, first occurrences, the dedup loop\<close>


lemma showNat_nonempty: "showNat n \<noteq> []"
  by (subst showNat.simps) simp

lemma showNat_digits: "c \<in> set (showNat n) \<Longrightarrow> 48 \<le> c \<and> c \<le> 57"
proof (induction n arbitrary: c rule: showNat.induct)
  case (1 n)
  show ?case
  proof (cases "n < 10")
    case True
    with "1.prems" show ?thesis by (subst (asm) showNat.simps) simp
  next
    case False
    from "1.prems" have "c \<in> set (showNat (n div 10)) \<or> c = 48 + n mod 10"
      using False by (subst (asm) showNat.simps) auto
    then show ?thesis
    proof
      assume "c \<in> set (showNat (n div 10))"
      then show ?thesis using "1.IH" [OF False] by blast
    next
      assume "c = 48 + n mod 10"
      moreover have "n mod 10 < 10" by simp
      ultimately show ?thesis by linarith
    qed
  qed
qed

lemma showNat_inj: "showNat n = showNat m \<Longrightarrow> n = m"
proof (induction n arbitrary: m rule: showNat.induct)
  case (1 n)
  show ?case
  proof (cases "n < 10")
    case True
    show ?thesis
    proof (cases "m < 10")
      case True
      with \<open>n < 10\<close> "1.prems" show ?thesis
        by (subst (asm) showNat.simps, subst (asm) (2) showNat.simps) simp
    next
      case False
      have "showNat n = [48 + n]" using \<open>n < 10\<close> by (subst showNat.simps) simp
      moreover have "showNat m = showNat (m div 10) @ [48 + m mod 10]"
        using False by (subst showNat.simps) simp
      ultimately have "showNat (m div 10) = []" using "1.prems" by simp
      then show ?thesis using showNat_nonempty by blast
    qed
  next
    case False
    have n: "showNat n = showNat (n div 10) @ [48 + n mod 10]"
      using False by (subst showNat.simps) simp
    show ?thesis
    proof (cases "m < 10")
      case True
      have "showNat m = [48 + m]" using True by (subst showNat.simps) simp
      then have "showNat (n div 10) = []" using n "1.prems" by simp
      then show ?thesis using showNat_nonempty by blast
    next
      case mf: False
      have m: "showNat m = showNat (m div 10) @ [48 + m mod 10]"
        using mf by (subst showNat.simps) simp
      from n m "1.prems" have a: "showNat (n div 10) = showNat (m div 10)"
        and b: "n mod 10 = m mod 10" by simp_all
      from "1.IH" [OF False a] have "n div 10 = m div 10" .
      with b show ?thesis by (metis div_mult_mod_eq)
    qed
  qed
qed

lemma showInt_chars: "c \<in> set (showInt i) \<Longrightarrow> c \<noteq> 95"
  using showNat_digits by (fastforce simp: showInt_def split: if_splits)

lemma showNat_hd: "hd (showNat n) \<noteq> 45"
proof -
  have "hd (showNat n) \<in> set (showNat n)" using showNat_nonempty by simp
  then have "48 \<le> hd (showNat n)" using showNat_digits by blast
  then show ?thesis by simp
qed

lemma showInt_inj: "showInt i = showInt j \<Longrightarrow> i = j"
proof -
  assume eq: "showInt i = showInt j"
  show ?thesis
  proof (cases "i < 0")
    case True
    show ?thesis
    proof (cases "j < 0")
      case jt: True
      from eq True jt have "showNat (nat (- i)) = showNat (nat (- j))" by (simp add: showInt_def)
      then have "nat (- i) = nat (- j)" by (rule showNat_inj)
      with True jt show ?thesis by simp
    next
      case False
      from eq True False have "45 # showNat (nat (- i)) = showNat (nat j)" by (simp add: showInt_def)
      then have "hd (showNat (nat j)) = 45" by (metis list.sel(1))
      then show ?thesis using showNat_hd by blast
    qed
  next
    case False
    show ?thesis
    proof (cases "j < 0")
      case True
      from eq True False have "showNat (nat i) = 45 # showNat (nat (- j))" by (simp add: showInt_def)
      then have "hd (showNat (nat i)) = 45" by (metis list.sel(1))
      then show ?thesis using showNat_hd by blast
    next
      case jf: False
      from eq False jf have "showNat (nat i) = showNat (nat j)" by (simp add: showInt_def)
      then have "nat i = nat j" by (rule showNat_inj)
      with False jf show ?thesis by simp
    qed
  qed
qed

lemma split_at_first:
  "c \<notin> set a \<Longrightarrow> c \<notin> set a' \<Longrightarrow> a @ c # r = a' @ c # r' \<Longrightarrow> a = a' \<and> r = r'"
proof (induction a arbitrary: a')
  case Nil
  then show ?case by (cases a') auto
next
  case (Cons x a)
  then show ?case by (cases a') auto
qed

lemma split_at_last:
  assumes "c \<notin> set b" "c \<notin> set b'" "r @ c # b = r' @ c # b'"
  shows "r = r' \<and> b = b'"
proof -
  have "rev b @ c # rev r = rev b' @ c # rev r'"
    using assms(3) by (metis rev.simps(2) rev_append append_assoc append_Cons append_Nil)
  moreover have "c \<notin> set (rev b)" "c \<notin> set (rev b')"
    using assms(1,2) by simp_all
  ultimately have "rev b = rev b' \<and> rev r = rev r'"
    by (rule split_at_first [rotated 2])
  then show ?thesis by simp
qed


lemma getMessageKey_eq_iff:
  "getMessageKey m = getMessageKey m' \<longleftrightarrow> fingerprint m = fingerprint m'"
proof
  assume eq: "getMessageKey m = getMessageKey m'"
  have us: "\<And>i. 95 \<notin> set (showInt i)" using showInt_chars by blast
  have un: "\<And>n. 95 \<notin> set (showNat n)" using showNat_digits by fastforce
  from eq have e1:
    "showInt (timestamp m) @ 95 # (senderPlatformId m @ 95 # showNat (length (contentOrEmpty m)))
     = showInt (timestamp m') @ 95 # (senderPlatformId m' @ 95 # showNat (length (contentOrEmpty m')))"
    by (simp add: getMessageKey_def)
  from split_at_first [OF us us e1]
  have t: "showInt (timestamp m) = showInt (timestamp m')"
    and r: "senderPlatformId m @ 95 # showNat (length (contentOrEmpty m))
            = senderPlatformId m' @ 95 # showNat (length (contentOrEmpty m'))"
    by simp_all
  from split_at_last [OF un un r]
  have s: "senderPlatformId m = senderPlatformId m'"
    and l: "showNat (length (contentOrEmpty m)) = showNat (length (contentOrEmpty m'))"
    by simp_all
  from t have "timestamp m = timestamp m'" by (rule showInt_inj)
  moreover from l have "length (contentOrEmpty m) = length (contentOrEmpty m')" by (rule showNat_inj)
  ultimately show "fingerprint m = fingerprint m'" using s by (simp add: fingerprint_def)
next
  assume "fingerprint m = fingerprint m'"
  then show "getMessageKey m = getMessageKey m'"
    by (simp add: fingerprint_def getMessageKey_def)
qed


lemma fold_ustep_keys:
  "set (map k (fold (\<lambda>x acc. if k x \<in> k ` set acc then acc else acc @ [x]) xs acc))
     = set (map k acc) \<union> set (map k xs)"
  by (induction xs arbitrary: acc) auto

lemma fold_ustep_distinct:
  "distinct (map k acc) \<Longrightarrow>
   distinct (map k (fold (\<lambda>x acc. if k x \<in> k ` set acc then acc else acc @ [x]) xs acc))"
  by (induction xs arbitrary: acc) auto


lemma fold_ustep_absorb:
  "set (map k xs) \<subseteq> set (map k acc) \<Longrightarrow>
   fold (\<lambda>x acc. if k x \<in> k ` set acc then acc else acc @ [x]) xs acc = acc"
  by (induction xs arbitrary: acc) auto

lemma uniqBy_keys: "set (map k (uniqBy k xs)) = set (map k xs)"
  unfolding uniqBy_def using fold_ustep_keys [of k xs "[]"] by simp

lemma uniqBy_distinct: "distinct (map k (uniqBy k xs))"
  unfolding uniqBy_def by (rule fold_ustep_distinct) simp


lemma uniqBy_twice: "uniqBy k (xs @ xs) = uniqBy k xs"
proof -
  have "set (map k xs) \<subseteq> set (map k (uniqBy k xs))"
    by (simp only: uniqBy_keys)
  then show ?thesis
    unfolding uniqBy_def fold_append comp_def by (rule fold_ustep_absorb)
qed

lemma uniq_uniqBy: "uniq xs = uniqBy (\<lambda>x. x) xs"
  by (simp add: uniq_def uniqBy_def)

lemma fold_ustep_map:
  "map k (fold (\<lambda>x acc. if k x \<in> k ` set acc then acc else acc @ [x]) xs acc)
   = fold (\<lambda>x acc. if x \<in> set acc then acc else acc @ [x]) (map k xs) (map k acc)"
  by (induction xs arbitrary: acc) auto

lemma map_uniqBy: "map k (uniqBy k xs) = uniq (map k xs)"
  using fold_ustep_map [of k xs "[]"] by (simp add: uniqBy_def uniq_def)

lemma uniq_distinct: "distinct (uniq xs)"
  using uniqBy_distinct [of "\<lambda>x. x" xs] by (simp add: uniq_uniqBy)

lemma uniq_set: "set (uniq xs) = set xs"
  using uniqBy_keys [of "\<lambda>x. x" xs] by (simp add: uniq_uniqBy)

lemma length_uniq: "length (uniq xs) = card (set xs)"
  by (metis distinct_card uniq_distinct uniq_set)

lemma length_uniq_eq_iff: "length (uniq xs) = length xs \<longleftrightarrow> distinct xs"
  by (metis card_distinct distinct_card length_uniq)

lemma uniq_twice: "uniq (xs @ xs) = uniq xs"
  using uniqBy_twice [of "\<lambda>x. x" xs] by (simp add: uniq_uniqBy)


lemma uniqBy_cong_fold:
  assumes "\<And>x y. k x = k y \<longleftrightarrow> k' x = k' y"
  shows "fold (\<lambda>x acc. if k x \<in> k ` set acc then acc else acc @ [x]) xs acc
         = fold (\<lambda>x acc. if k' x \<in> k' ` set acc then acc else acc @ [x]) xs acc"
proof (induction xs arbitrary: acc)
  case Nil
  show ?case by simp
next
  case (Cons a xs)
  have "k a \<in> k ` set acc \<longleftrightarrow> k' a \<in> k' ` set acc"
    using assms by (auto simp: image_iff)
  then show ?case using Cons.IH by simp
qed

lemma uniqBy_cong:
  "(\<And>x y. k x = k y \<longleftrightarrow> k' x = k' y) \<Longrightarrow> uniqBy k xs = uniqBy k' xs"
  unfolding uniqBy_def by (rule uniqBy_cong_fold)

text \<open>The dedup loop of mergeFiles keeps the first message of every key.\<close>

lemma mapSet_append_new: "\<not> mapHas m k \<Longrightarrow> mapSet (m @ [(k, v)]) k v' = m @ [(k, v')]"
  by (induction m) (auto split: if_splits)

lemma mapHas_encoded:
  "mapHas (map (\<lambda>m. (f m, [g m])) acc) k \<longleftrightarrow> k \<in> f ` set acc"
  by (induction acc) auto

lemma mapGet_encoded:
  "k \<in> f ` set acc \<Longrightarrow> \<exists>y. mapGet (map (\<lambda>m. (f m, [g m])) acc) k = Some [g y]"
  by (induction acc) auto

lemma dedupStep_encoded:
  "fst (dedupStep res item (map (\<lambda>m. (getMessageKey m, [toChatLabMessage m])) acc, pc))
   = map (\<lambda>m. (getMessageKey m, [toChatLabMessage m]))
       (if getMessageKey (fst item) \<in> getMessageKey ` set acc then acc else acc @ [fst item])"
proof (cases "getMessageKey (fst item) \<in> getMessageKey ` set acc")
  case True
  from mapGet_encoded [OF True, of toChatLabMessage] obtain y where
    "mapGet (map (\<lambda>m. (getMessageKey m, [toChatLabMessage m])) acc) (getMessageKey (fst item))
      = Some [toChatLabMessage y]" by blast
  with True show ?thesis
    by (simp add: dedupStep_def Let_def mapHas_encoded)
next
  case False
  then have nh: "\<not> mapHas (map (\<lambda>m. (getMessageKey m, [toChatLabMessage m])) acc)
                     (getMessageKey (fst item))"
    by (simp add: mapHas_encoded)
  show ?thesis
    using False nh
    by (simp add: dedupStep_def Let_def mapGet_append_new mapSet_append_new)
qed

lemma dedup_fold_encoded:
  "fst (fold (dedupStep res) items (map (\<lambda>m. (getMessageKey m, [toChatLabMessage m])) acc, pc))
   = map (\<lambda>m. (getMessageKey m, [toChatLabMessage m]))
       (fold (\<lambda>x acc. if getMessageKey x \<in> getMessageKey ` set acc then acc else acc @ [x])
          (map fst items) acc)"
proof (induction items arbitrary: acc pc)
  case Nil
  show ?case by simp
next
  case (Cons item items)
  obtain mm pc' where st: "dedupStep res item
      (map (\<lambda>m. (getMessageKey m, [toChatLabMessage m])) acc, pc) = (mm, pc')"
    by (cases "dedupStep res item (map (\<lambda>m. (getMessageKey m, [toChatLabMessage m])) acc, pc)")
  have mm: "mm = map (\<lambda>m. (getMessageKey m, [toChatLabMessage m]))
       (if getMessageKey (fst item) \<in> getMessageKey ` set acc then acc else acc @ [fst item])"
    using dedupStep_encoded [of res item acc pc] st by simp
  show ?case
    using Cons.IH [of "if getMessageKey (fst item) \<in> getMessageKey ` set acc then acc else acc @ [fst item]" pc']
    by (simp add: st mm)
qed

lemma concat_encoded: "concat (map snd (map (\<lambda>m. (f m, [g m])) acc)) = map g acc"
  by (induction acc) auto

lemma concat_encoded_comp: "concat (map (snd \<circ> (\<lambda>m. (f m, [g m]))) acc) = map g acc"
  by (induction acc) auto

lemma map_fst_allMessages: "map fst (allMessages prs) = concat (map (messages \<circ> fst) prs)"
  by (induction prs) (auto simp: allMessages_def comp_def)

lemma mergedMessages_eq:
  "mergedMessages res prs =
     sort_key clmTimestamp
       (map toChatLabMessage (uniqBy fingerprint (concat (map (messages \<circ> fst) prs))))"
proof -
  have "fst (fold (dedupStep res) (allMessages prs) ([], []))
        = map (\<lambda>m. (getMessageKey m, [toChatLabMessage m]))
            (uniqBy getMessageKey (map fst (allMessages prs)))"
    using dedup_fold_encoded [of res "allMessages prs" "[]" "[]"] by (simp add: uniqBy_def)
  moreover have "uniqBy getMessageKey (map fst (allMessages prs))
                 = uniqBy fingerprint (map fst (allMessages prs))"
    by (rule uniqBy_cong) (rule getMessageKey_eq_iff)
  ultimately show ?thesis
    by (simp add: mergedMessages_def concat_encoded_comp map_fst_allMessages)
qed







lemma mergedMessages_sorted: "sorted (map clmTimestamp (mergedMessages res prs))"
  by (simp add: mergedMessages_def)

lemma mergedMessages_length:
  "length (mergedMessages res prs)
   = length (uniq (map (getMessageKey \<circ> fst) (allMessages prs)))"
proof -
  have "length (mergedMessages res prs)
        = length (map fingerprint (uniqBy fingerprint (concat (map (messages \<circ> fst) prs))))"
    by (simp add: mergedMessages_eq)
  also have "\<dots> = length (map getMessageKey (uniqBy getMessageKey (concat (map (messages \<circ> fst) prs))))"
    using uniqBy_cong [of getMessageKey fingerprint, OF getMessageKey_eq_iff] by simp
  also have "\<dots> = length (uniq (map getMessageKey (concat (map (messages \<circ> fst) prs))))"
    by (simp only: map_uniqBy)
  finally show ?thesis by (simp add: map_fst_allMessages [symmetric])
qed

subsection \<open>Merge engine: the two operations\<close>

lemma parseFiles_effects: "e \<in> set (snd (parseFiles env ps)) \<Longrightarrow> \<exists>p. e = Parsed p"
  by (induction ps) (auto split: sum.splits prod.splits)

lemma parseFiles_effects_not_wrote: "Wrote p d \<notin> set (snd (parseFiles env ps))"
  using parseFiles_effects by blast

lemma mergeFiles_wrote:
  assumes "Wrote p d \<in> set (snd (mergeFiles env params))"
  shows "\<exists>prs. fst (parseFiles env (filePaths params)) = Inr prs
               \<and> clMessages d = mergedMessages (conflictResolutions params) prs"
proof (cases "parseFiles env (filePaths params)")
  case (Pair res eff)
  have nw: "Wrote p d \<notin> set eff"
    using parseFiles_effects_not_wrote [of p d env "filePaths params"] Pair by simp
  show ?thesis
  proof (cases res)
    case (Inl e)
    with Pair nw assms show ?thesis
      by (simp add: mergeFiles_def mergeFilesBody_def)
  next
    case (Inr prs)
    show ?thesis
    proof (cases prs)
      case Nil
      with Pair Inr nw assms show ?thesis
        by (simp add: mergeFiles_def mergeFilesBody_def)
    next
      case (Cons pr rest)
      obtain first src where pr: "pr = (first, src)" by (cases pr)
      from assms Pair Inr Cons pr nw
      have "d = buildChatLab env params prs first"
        by (auto simp: mergeFiles_def mergeFilesBody_def Let_def
            split: option.splits sum.splits if_splits)
      then show ?thesis using Pair Inr by (simp add: buildChatLab_def)
    qed
  qed
qed


lemma mergeFiles_returns: "\<exists>r. fst (mergeFiles env params) = Inr r"
  by (cases "mergeFilesBody env params") (auto simp: mergeFiles_def split: sum.splits)

lemma mergeFiles_caught:
  "fst (mergeFilesBody env params) = Inl e \<Longrightarrow>
   fst (mergeFiles env params) =
     Inr \<lparr>success = False, outputPath = None, sessionId = None, error = Some (catchMessage e)\<rparr>"
  by (cases "mergeFilesBody env params") (auto simp: mergeFiles_def split: sum.splits)

lemma mergeFiles_passed:
  "fst (mergeFilesBody env params) = Inr r \<Longrightarrow> fst (mergeFiles env params) = Inr r"
  by (cases "mergeFilesBody env params") (auto simp: mergeFiles_def split: sum.splits)

lemma checkConflicts_throws_iff:
  "fst (checkConflicts env paths) = Inl e \<longleftrightarrow>
     detectFormats env paths = Inl e
     \<or> (\<exists>fs. detectFormats env paths = Inr fs \<and> 1 < length (uniq fs)
            \<and> e = Error (formatMismatchMessage (uniq fs)))
     \<or> (\<exists>fs. detectFormats env paths = Inr fs \<and> length (uniq fs) \<le> 1
            \<and> fst (parseFiles env paths) = Inl e)"
  by (cases "parseFiles env paths")
     (auto simp: checkConflicts_def split: sum.splits prod.splits)

lemma detectFormats_unrecognized:
  "detectFormat env p = None \<Longrightarrow> p \<in> set paths \<Longrightarrow> \<exists>e. detectFormats env paths = Inl e"
  by (induction paths) (auto split: option.splits sum.splits)

lemma detectFormats_recognized:
  "list_all (\<lambda>p. detectFormat env p \<noteq> None) paths \<Longrightarrow>
   detectFormats env paths = Inr (map (the \<circ> detectFormat env) paths)"
  by (induction paths) (auto split: option.splits sum.splits)

lemma parseFiles_fails:
  "parseFileSync env p = Inl e \<Longrightarrow> p \<in> set paths \<Longrightarrow> \<exists>e'. fst (parseFiles env paths) = Inl e'"
  by (induction paths) (auto split: sum.splits prod.splits)

lemma join_names: "f \<in> set fs \<Longrightarrow> \<exists>pre post. join sep fs = pre @ f @ post"
proof (induction sep fs rule: join.induct)
  case (1 sep)
  then show ?case by simp
next
  case (2 sep x)
  then have "join sep [x] = [] @ f @ []" by simp
  then show ?case by blast
next
  case (3 sep x y r)
  show ?case
  proof (cases "f = x")
    case True
    then have "join sep (x # y # r) = [] @ f @ (sep @ join sep (y # r))" by simp
    then show ?thesis by blast
  next
    case False
    with "3.prems" have "f \<in> set (y # r)" by simp
    from "3.IH" [OF this] obtain pre post where "join sep (y # r) = pre @ f @ post" by blast
    then have "join sep (x # y # r) = (x @ sep @ pre) @ f @ post" by simp
    then show ?thesis by blast
  qed
qed

lemma formatMismatchMessage_names:
  assumes "f \<in> set fs"
  shows "\<exists>pre post. formatMismatchMessage fs = pre @ f @ post"
proof -
  from join_names [OF assms, of "[12289]"] obtain pre post
    where j: "join [12289] fs = pre @ f @ post" by blast
  have "\<And>a b. a @ join [12289] fs @ b = (a @ pre) @ f @ (post @ b)"
    by (simp add: j)
  then show ?thesis unfolding formatMismatchMessage_def by blast
qed

lemma checkConflicts_mismatch:
  assumes "detectFormats env paths = Inr formats"
    and "2 \<le> card (set formats)"
  shows "checkConflicts env paths = (Inl (Error (formatMismatchMessage (uniq formats))), [])"
proof -
  have "1 < length (uniq formats)"
    using assms(2) by (simp only: length_uniq)
  then show ?thesis
    using assms(1) by (simp add: checkConflicts_def)
qed

lemma length_uniq_keys: "length (uniq (map getMessageKey ms)) = card (fingerprint ` set ms)"
proof -
  have "length (uniq (map getMessageKey ms)) = length (uniqBy getMessageKey ms)"
    by (simp add: map_uniqBy [symmetric])
  also have "\<dots> = length (uniqBy fingerprint ms)"
    using uniqBy_cong [of getMessageKey fingerprint, OF getMessageKey_eq_iff] by simp
  also have "\<dots> = length (uniq (map fingerprint ms))"
    by (simp add: map_uniqBy [symmetric])
  finally show ?thesis by (simp add: length_uniq)
qed

lemma checkConflicts_total:
  assumes "list_all (\<lambda>p. detectFormat env p = Some fmt) paths"
    and "fst (parseFiles env paths) = Inr prs"
  shows "\<exists>res. fst (checkConflicts env paths) = Inr res
           \<and> totalMessages res = card (fingerprint ` set (concat (map (messages \<circ> fst) prs)))"
proof -
  have d: "detectFormats env paths = Inr (map (\<lambda>p. fmt) paths)"
    using assms(1) by (induction paths) auto
  have "set (map (\<lambda>p. fmt) paths) \<subseteq> {fmt}" by auto
  then have "card (set (map (\<lambda>p. fmt) paths)) \<le> card {fmt}"
    by (intro card_mono) simp_all
  then have "card (set (map (\<lambda>p. fmt) paths)) \<le> 1" by simp
  then have u: "\<not> 1 < length (uniq (map (\<lambda>p. fmt) paths))"
    by (simp only: length_uniq not_less)
  obtain eff where p: "parseFiles env paths = (Inr prs, eff)"
    using assms(2) by (cases "parseFiles env paths") simp
  have "map (getMessageKey \<circ> fst) (allMessages prs)
        = map getMessageKey (concat (map (messages \<circ> fst) prs))"
    by (simp add: map_fst_allMessages [symmetric])
  then show ?thesis
    using d u p by (simp add: checkConflicts_def length_uniq_keys)
qed

subsection \<open>Merge engine: the claims\<close>

lemma examplePath_written:
  "snd (mergeFiles exampleEnv exampleParams) =
     [Parsed (ascii ''a.json''), Parsed (ascii ''c.json''),
      Wrote (ascii ''/docs/ChatLab/merged/chat_merged_20231114.chatlab.json'')
        (buildChatLab exampleEnv exampleParams
           [(exampleFileA, ascii ''a.json''), (exampleFileC, ascii ''c.json'')] exampleFileA)]"
  by code_simp




lemma exampleEnv_simps:
  "detectFormat exampleEnv (ascii ''a.json'') = Some (ascii ''Alpha'')"
  "detectFormat exampleEnv (ascii ''b.json'') = Some (ascii ''Beta'')"
  "detectFormat exampleEnv (ascii ''c.json'') = Some (ascii ''Alpha'')"
  "detectFormat exampleEnv (ascii ''x.txt'') = None"
  "parseFileSync exampleEnv (ascii ''a.json'') = Inr exampleFileA"
  "parseFileSync exampleEnv (ascii ''c.json'') = Inr exampleFileC"
  "parseFileSync exampleEnv (ascii ''x.txt'') = Inl (Error (ascii ''ENOENT''))"
  "basename exampleEnv p = p"
  by (simp_all add: exampleEnv_def ascii_def)

lemma uniq_Alpha_Beta: "uniq [ascii ''Alpha'', ascii ''Beta''] = [ascii ''Alpha'', ascii ''Beta'']"
  by (simp add: uniq_def ascii_def)

text \<open>
  C3, as the specification states it, fails on the code: checkConflicts has no catch.
  For one file of format Alpha and one of format Beta the exception it throws reaches
  the caller; so does the one for an unrecognised file.
\<close>

theorem C3_checkConflicts_throws_counterexample:
  "fst (checkConflicts exampleEnv [ascii ''a.json'', ascii ''b.json''])
     = Inl (Error (formatMismatchMessage [ascii ''Alpha'', ascii ''Beta'']))
   \<and> fst (checkConflicts exampleEnv [ascii ''x.txt''])
     = Inl (Error (unrecognizedFormatText @ ascii ''x.txt''))"
  by (simp add: checkConflicts_def exampleEnv_simps uniq_Alpha_Beta)

text \<open>
  C3 (amended). mergeFiles catches every failure of its body and returns a structured
  result: it never ends in an exception, and a failure of the body becomes the result
  with success = false and the error's message. checkConflicts catches nothing: it ends
  in an exception exactly when a file's format is not recognised, when the files have
  more than one format, or when parsing a file fails, and that exception reaches the
  caller.
\<close>

theorem C3_failures_at_the_boundary:
  "(\<exists>r. fst (mergeFiles env params) = Inr r)
   \<and> (fst (mergeFilesBody env params) = Inl e \<longrightarrow>
        fst (mergeFiles env params) =
          Inr \<lparr>success = False, outputPath = None, sessionId = None,
                error = Some (catchMessage e)\<rparr>)
   \<and> (fst (mergeFilesBody env params) = Inr r' \<longrightarrow> fst (mergeFiles env params) = Inr r')
   \<and> (fst (checkConflicts env paths) = Inl e' \<longleftrightarrow>
        detectFormats env paths = Inl e'
        \<or> (\<exists>fs. detectFormats env paths = Inr fs \<and> 1 < length (uniq fs)
               \<and> e' = Error (formatMismatchMessage (uniq fs)))
        \<or> (\<exists>fs. detectFormats env paths = Inr fs \<and> length (uniq fs) \<le> 1
               \<and> fst (parseFiles env paths) = Inl e'))
   \<and> (p \<in> set paths \<and> detectFormat env p = None \<longrightarrow>
        (\<exists>e. detectFormats env paths = Inl e))"
proof (intro conjI impI)
  show "\<exists>r. fst (mergeFiles env params) = Inr r"
    by (rule mergeFiles_returns)
  show "fst (mergeFiles env params) =
          Inr \<lparr>success = False, outputPath = None, sessionId = None,
                error = Some (catchMessage e)\<rparr>"
    if "fst (mergeFilesBody env params) = Inl e"
    using that by (rule mergeFiles_caught)
  show "fst (mergeFiles env params) = Inr r'" if "fst (mergeFilesBody env params) = Inr r'"
    using that by (rule mergeFiles_passed)
  show "fst (checkConflicts env paths) = Inl e' \<longleftrightarrow>
        detectFormats env paths = Inl e'
        \<or> (\<exists>fs. detectFormats env paths = Inr fs \<and> 1 < length (uniq fs)
               \<and> e' = Error (formatMismatchMessage (uniq fs)))
        \<or> (\<exists>fs. detectFormats env paths = Inr fs \<and> length (uniq fs) \<le> 1
               \<and> fst (parseFiles env paths) = Inl e')"
    by (rule checkConflicts_throws_iff)
  show "\<exists>e. detectFormats env paths = Inl e" if "p \<in> set paths \<and> detectFormat env p = None"
    using that detectFormats_unrecognized [of env p paths] by simp
qed

text \<open>
  Witness for C3: merging the unreadable \<open>x.txt\<close> fails inside the body with ENOENT and
  mergeFiles returns the failure result; checkConflicts on \<open>x.txt\<close> throws.
\<close>

theorem C3_failures_at_the_boundary_witness:
  "fst (mergeFiles exampleEnv (exampleParams\<lparr>filePaths := [ascii ''x.txt'']\<rparr>)) =
     Inr \<lparr>success = False, outputPath = None, sessionId = None,
           error = Some (ascii ''ENOENT'')\<rparr>
   \<and> (\<exists>e. detectFormats exampleEnv [ascii ''x.txt''] = Inl e)"
proof -
  have b: "fst (mergeFilesBody exampleEnv (exampleParams\<lparr>filePaths := [ascii ''x.txt'']\<rparr>))
           = Inl (Error (ascii ''ENOENT''))"
    by (simp add: mergeFilesBody_def exampleEnv_simps)
  have u: "detectFormat exampleEnv (ascii ''x.txt'') = None"
    by (rule exampleEnv_simps)
  note T = C3_failures_at_the_boundary [of exampleEnv
      "exampleParams\<lparr>filePaths := [ascii ''x.txt'']\<rparr>" "Error (ascii ''ENOENT'')" _
      "[ascii ''x.txt'']" _ "ascii ''x.txt''"]
  from T b have "fst (mergeFiles exampleEnv (exampleParams\<lparr>filePaths := [ascii ''x.txt'']\<rparr>)) =
     Inr \<lparr>success = False, outputPath = None, sessionId = None,
           error = Some (catchMessage (Error (ascii ''ENOENT'')))\<rparr>"
    by blast
  then have m: "fst (mergeFiles exampleEnv (exampleParams\<lparr>filePaths := [ascii ''x.txt'']\<rparr>)) =
     Inr \<lparr>success = False, outputPath = None, sessionId = None,
           error = Some (ascii ''ENOENT'')\<rparr>"
    by (simp add: catchMessage_def)
  have "ascii ''x.txt'' \<in> set [ascii ''x.txt'']" by simp
  with T u have c: "\<exists>e. detectFormats exampleEnv [ascii ''x.txt''] = Inl e"
    by blast
  from m c show ?thesis by (intro conjI)
qed

text \<open>
  C4. If every input file of checkConflicts is recognised and the files have two or more
  distinct formats, the operation fails with the format-mismatch error, whose message
  contains the name of every distinct format found (each once, in order of first
  occurrence), and no file has been handed to the parser.
\<close>

theorem C4_format_mismatch:
  "detectFormats env paths = Inr formats \<and> 2 \<le> card (set formats) \<longrightarrow>
     checkConflicts env paths = (Inl (Error (formatMismatchMessage (uniq formats))), [])
     \<and> set (uniq formats) = set formats \<and> distinct (uniq formats)
     \<and> (\<forall>f \<in> set formats. \<exists>pre post. formatMismatchMessage (uniq formats) = pre @ f @ post)"
proof (intro impI, elim conjE)
  assume d: "detectFormats env paths = Inr formats" and c: "2 \<le> card (set formats)"
  have "\<forall>f \<in> set formats. \<exists>pre post. formatMismatchMessage (uniq formats) = pre @ f @ post"
    using formatMismatchMessage_names [of _ "uniq formats"] by (simp add: uniq_set)
  then show "checkConflicts env paths = (Inl (Error (formatMismatchMessage (uniq formats))), [])
     \<and> set (uniq formats) = set formats \<and> distinct (uniq formats)
     \<and> (\<forall>f \<in> set formats. \<exists>pre post. formatMismatchMessage (uniq formats) = pre @ f @ post)"
    using checkConflicts_mismatch [OF d c] uniq_set [of formats] uniq_distinct [of formats]
    by blast
qed

text \<open>
  Witness for C4: \<open>a.json\<close> is recognised as Alpha and \<open>b.json\<close> as Beta; the check
  fails before parsing, and the message names Alpha and Beta.
\<close>

theorem C4_format_mismatch_witness:
  "checkConflicts exampleEnv [ascii ''a.json'', ascii ''b.json'']
     = (Inl (Error (formatMismatchMessage [ascii ''Alpha'', ascii ''Beta''])), [])
   \<and> (\<exists>pre post. formatMismatchMessage [ascii ''Alpha'', ascii ''Beta'']
                    = pre @ ascii ''Alpha'' @ post)
   \<and> (\<exists>pre post. formatMismatchMessage [ascii ''Alpha'', ascii ''Beta'']
                    = pre @ ascii ''Beta'' @ post)"
proof -
  have d: "detectFormats exampleEnv [ascii ''a.json'', ascii ''b.json'']
           = Inr [ascii ''Alpha'', ascii ''Beta'']"
    by (simp add: exampleEnv_simps)
  have "set [ascii ''Alpha'', ascii ''Beta''] = {ascii ''Alpha'', ascii ''Beta''}" by simp
  moreover have "ascii ''Alpha'' \<noteq> ascii ''Beta''" by (simp add: ascii_def)
  ultimately have c: "2 \<le> card (set [ascii ''Alpha'', ascii ''Beta''])" by simp
  note u = uniq_Alpha_Beta
  from C4_format_mismatch [of exampleEnv "[ascii ''a.json'', ascii ''b.json'']"
      "[ascii ''Alpha'', ascii ''Beta'']"] d c
  show ?thesis by (simp add: u)
qed

lemma card_fingerprints_eq_length:
  "card (fingerprint ` set ms) = length ms \<longleftrightarrow> distinct (map fingerprint ms)"
proof -
  have "card (set (map fingerprint ms)) = length (map fingerprint ms)
        \<longleftrightarrow> distinct (map fingerprint ms)"
    by (metis card_distinct distinct_card)
  then show ?thesis by simp
qed

lemma self_merge_total:
  assumes "detectFormat env f = Some fmt" and "parseFileSync env f = Inr r"
  shows "\<exists>res. fst (checkConflicts env [f, f]) = Inr res
               \<and> totalMessages res = card (fingerprint ` set (messages r))"
    and "\<exists>res. fst (checkConflicts env [f]) = Inr res
               \<and> totalMessages res = card (fingerprint ` set (messages r))"
proof -
  have p2: "fst (parseFiles env [f, f]) = Inr [(r, basename env f), (r, basename env f)]"
    using assms(2) by simp
  have p1: "fst (parseFiles env [f]) = Inr [(r, basename env f)]"
    using assms(2) by simp
  have d2: "list_all (\<lambda>p. detectFormat env p = Some fmt) [f, f]"
    and d1: "list_all (\<lambda>p. detectFormat env p = Some fmt) [f]"
    using assms(1) by simp_all
  from checkConflicts_total [OF d2 p2]
  show "\<exists>res. fst (checkConflicts env [f, f]) = Inr res
               \<and> totalMessages res = card (fingerprint ` set (messages r))"
    by simp
  from checkConflicts_total [OF d1 p1]
  show "\<exists>res. fst (checkConflicts env [f]) = Inr res
               \<and> totalMessages res = card (fingerprint ` set (messages r))"
    by simp
qed

lemma self_merge_length:
  "length (mergedMessages rs [(r, s), (r, s)]) = card (fingerprint ` set (messages r))"
proof -
  have "map (getMessageKey \<circ> fst) (allMessages [(r, s), (r, s)])
        = map getMessageKey (messages r @ messages r)"
    by (simp add: allMessages_def comp_def)
  then have "length (mergedMessages rs [(r, s), (r, s)])
             = length (uniq (map getMessageKey (messages r @ messages r)))"
    by (simp only: mergedMessages_length)
  then show ?thesis by (simp only: length_uniq_keys) simp
qed

text \<open>
  C5, as the specification states it, fails on the code: parsing \<open>a.json\<close> gives 3
  messages, two of them with the same fingerprint (u1 sent "ok" and "no" in the same
  second); the conflict check of [a.json, a.json] reports 2 messages in total and the
  merge of the file with itself has 2 messages.
\<close>

theorem C5_self_merge_counterexample:
  "parseFileSync exampleEnv (ascii ''a.json'') = Inr exampleFileA
   \<and> length (messages exampleFileA) = 3
   \<and> fst (checkConflicts exampleEnv [ascii ''a.json'', ascii ''a.json''])
       = Inr \<lparr>conflicts = [], totalMessages = 2\<rparr>
   \<and> length (mergedMessages [] [(exampleFileA, ascii ''a.json''), (exampleFileA, ascii ''a.json'')]) = 2"
  by code_simp

text \<open>
  C5 (amended). For every recognised, parseable file f, the conflict check of [f, f]
  reports the same deduplicated total as the conflict check of [f]: the number of distinct
  fingerprints among the messages of f; the merge of f with itself has that many messages.
  This number equals the number of messages obtained by parsing f once exactly when no
  two messages of f share a fingerprint.
\<close>

theorem C5_self_merge:
  "detectFormat env f = Some fmt \<and> parseFileSync env f = Inr r \<longrightarrow>
     (\<exists>res. fst (checkConflicts env [f, f]) = Inr res
            \<and> totalMessages res = card (fingerprint ` set (messages r)))
     \<and> (\<exists>res. fst (checkConflicts env [f]) = Inr res
            \<and> totalMessages res = card (fingerprint ` set (messages r)))
     \<and> length (mergedMessages rs [(r, s), (r, s)]) = card (fingerprint ` set (messages r))
     \<and> (card (fingerprint ` set (messages r)) = length (messages r)
          \<longleftrightarrow> distinct (map fingerprint (messages r)))"
  using self_merge_total [of env f fmt r] self_merge_length [of rs r s]
    card_fingerprints_eq_length [of "messages r"]
  by (intro impI) simp

text \<open>
  Witness for C5: \<open>c.json\<close> has two messages with different fingerprints; its self-merge
  totals 2, the number of messages parsed.
\<close>

theorem C5_self_merge_witness:
  "(\<exists>res. fst (checkConflicts exampleEnv [ascii ''c.json'', ascii ''c.json'']) = Inr res
          \<and> totalMessages res = card (fingerprint ` set (messages exampleFileC)))
   \<and> length (mergedMessages [] [(exampleFileC, ascii ''c.json''), (exampleFileC, ascii ''c.json'')])
       = card (fingerprint ` set (messages exampleFileC))
   \<and> card (fingerprint ` set (messages exampleFileC)) = length (messages exampleFileC)
   \<and> length (messages exampleFileC) = 2"
proof -
  have d: "distinct (map fingerprint (messages exampleFileC))"
    by (simp add: exampleFileC_def exampleResult_def exampleMessage_def fingerprint_def
        ascii_def)
  have l: "length (messages exampleFileC) = 2"
    by (simp add: exampleFileC_def exampleResult_def)
  have h: "detectFormat exampleEnv (ascii ''c.json'') = Some (ascii ''Alpha'')
           \<and> parseFileSync exampleEnv (ascii ''c.json'') = Inr exampleFileC"
    by (simp add: exampleEnv_simps)
  from C5_self_merge [of exampleEnv "ascii ''c.json''" "ascii ''Alpha''" exampleFileC "[]"
      "ascii ''c.json''"] h d l
  show ?thesis by blast
qed

subsection \<open>Streaming parsers: handlers, batches, member map\<close>


lemma emittedMessages_append:
  "emittedMessages (a @ b) = emittedMessages a @ emittedMessages b"
  by (induction a rule: emittedMessages.induct) simp_all

lemma yieldBatches_total:
  assumes "0 < bs"
  shows "\<exists>evs. yieldBatches bs i xs = Some evs \<and> emittedMessages evs = drop i xs
           \<and> list_all (\<lambda>e. \<exists>ms. e = MessagesEvent ms \<and> ms \<noteq> [] \<and> length ms \<le> bs) evs"
proof (induction "length xs - i" arbitrary: i rule: less_induct)
  case less
  show ?case
  proof (cases "i < length xs")
    case False
    then show ?thesis by (subst yieldBatches.simps) simp
  next
    case True
    have "length xs - (i + bs) < length xs - i" using True assms by simp
    from less [OF this] obtain rest where
      r: "yieldBatches bs (i + bs) xs = Some rest"
      and e: "emittedMessages rest = drop (i + bs) xs"
      and a: "list_all (\<lambda>e. \<exists>ms. e = MessagesEvent ms \<and> ms \<noteq> [] \<and> length ms \<le> bs) rest"
      by blast
    have y: "yieldBatches bs i xs = Some (MessagesEvent (take bs (drop i xs)) # rest)"
      using True r by (subst yieldBatches.simps) simp
    have "take bs (drop i xs) @ drop (i + bs) xs = drop i xs"
      by (metis add.commute append_take_drop_id drop_drop)
    moreover have "take bs (drop i xs) \<noteq> []" using True assms by simp
    ultimately show ?thesis using y e a by simp
  qed
qed

lemma yieldBatches_zero_diverges:
  "i < length xs \<Longrightarrow> yieldBatches 0 i xs = None"
proof (rule ccontr)
  assume i: "i < length xs" and "yieldBatches 0 i xs \<noteq> None"
  then obtain y where y: "yieldBatches 0 i xs = Some y" by blast
  have "\<not> (bs = 0 \<and> j < length ys)" if "yieldBatches bs j ys = Some z" for bs j ys z
    using that
  proof (induction arbitrary: z rule: yieldBatches.raw_induct [rotated 1, consumes 1])
    case (1 f b k zs r)
    show ?case
    proof
      assume h: "b = 0 \<and> k < length zs"
      with 1(2) obtain rest where "f 0 k zs = Some rest"
        by (auto simp: Option.bind_eq_Some_conv)
      from 1(1) [OF this] h show False by simp
    qed
  qed
  from this [OF y] i show False by simp
qed


text \<open>The two handlers.\<close>

lemma onData_fold:
  assumes f: "\<And>v mm. fst (pm v mm) = f v"
  shows "messageBatch (fold (onData pm bs) rs st) @ batchCollector (fold (onData pm bs) rs st)
           = messageBatch st @ batchCollector st @ List.map_filter f rs
         \<and> messagesProcessed (fold (onData pm bs) rs st)
           = messagesProcessed st + length (List.map_filter f rs)
         \<and> memberMap (fold (onData pm bs) rs st)
           = fold (\<lambda>v mm. snd (pm v mm)) rs (memberMap st)"
proof (induction rs arbitrary: st)
  case Nil
  show ?case by (simp add: List.map_filter_simps)
next
  case (Cons v rs)
  obtain m mm where p: "pm v (memberMap st) = (m, mm)" by (cases "pm v (memberMap st)")
  then have m: "m = f v" using f [of v "memberMap st"] by simp
  have mm: "mm = snd (pm v (memberMap st))" using p by simp
  show ?case
  proof (cases m)
    case None
    then have "onData pm bs v st = st\<lparr>memberMap := mm\<rparr>"
      using p by (simp add: onData_def)
    then show ?thesis
      using Cons [of "st\<lparr>memberMap := mm\<rparr>"] None m mm
      by (simp add: List.map_filter_simps)
  next
    case (Some parsed)
    show ?thesis
    proof (cases "length (batchCollector st @ [parsed]) \<ge> bs")
      case True
      then have "onData pm bs v st =
          st\<lparr>memberMap := mm, messageBatch := messageBatch st @ batchCollector st @ [parsed],
             batchCollector := [], messagesProcessed := messagesProcessed st + 1\<rparr>"
        using p Some by (simp add: onData_def Let_def)
      then show ?thesis
        using Cons [of "st\<lparr>memberMap := mm,
             messageBatch := messageBatch st @ batchCollector st @ [parsed],
             batchCollector := [], messagesProcessed := messagesProcessed st + 1\<rparr>"] Some m mm
        by (simp add: List.map_filter_simps)
    next
      case False
      then have "onData pm bs v st =
          st\<lparr>memberMap := mm, batchCollector := batchCollector st @ [parsed],
             messagesProcessed := messagesProcessed st + 1\<rparr>"
        using p Some by (simp add: onData_def Let_def)
      then show ?thesis
        using Cons [of "st\<lparr>memberMap := mm, batchCollector := batchCollector st @ [parsed],
             messagesProcessed := messagesProcessed st + 1\<rparr>"] Some m mm
        by (simp add: List.map_filter_simps)
    qed
  qed
qed

lemma onEnd_fields:
  "messageBatch (onEnd st) = messageBatch st @ batchCollector st"
  "memberMap (onEnd st) = memberMap st"
  "messagesProcessed (onEnd st) = messagesProcessed st"
  by (simp_all add: onEnd_def)

lemma parseWith_events:
  assumes f: "\<And>v mm. fst (pm v mm) = f v"
    and bs: "0 < bs" and ok: "streamError file = None"
  shows "\<exists>batches.
           parseWith pm u bs file =
             Some ([ProgressEvent \<lparr>stage = ascii ''parsing'', bytesRead = 0,
                                   progressTotalBytes = totalBytes file, progressMessages = 0,
                                   progressText = [24320, 22987, 35299, 26512, 46, 46, 46]\<rparr>,
                    MetaEvent (metaOf u (chatInfo file)),
                    MembersEvent (map snd (fold (\<lambda>v mm. snd (pm v mm)) (records file) []))]
                   @ batches
                   @ [ProgressEvent \<lparr>stage = ascii ''done'', bytesRead = totalBytes file,
                                      progressTotalBytes = totalBytes file,
                                      progressMessages = length (List.map_filter f (records file)),
                                      progressText = [35299, 26512, 23436, 25104]\<rparr>,
                      DoneEvent (length (List.map_filter f (records file)))
                        (length (fold (\<lambda>v mm. snd (pm v mm)) (records file) []))],
                   None)
           \<and> emittedMessages batches = List.map_filter f (records file)
           \<and> list_all (\<lambda>e. \<exists>ms. e = MessagesEvent ms \<and> ms \<noteq> [] \<and> length ms \<le> bs) batches"
proof -
  define st where "st = onEnd (fold (onData pm bs) (records file) initialParserState)"
  from onData_fold [of pm f bs "records file" initialParserState, OF f]
  have mb: "messageBatch st = List.map_filter f (records file)"
    and mp: "messagesProcessed st = length (List.map_filter f (records file))"
    and mm: "memberMap st = fold (\<lambda>v mm. snd (pm v mm)) (records file) []"
    by (simp_all add: st_def onEnd_fields initialParserState_def)
  from yieldBatches_total [OF bs, of 0 "messageBatch st"] obtain batches where
    y: "yieldBatches bs 0 (messageBatch st) = Some batches"
    and e: "emittedMessages batches = messageBatch st"
    and a: "list_all (\<lambda>e. \<exists>ms. e = MessagesEvent ms \<and> ms \<noteq> [] \<and> length ms \<le> bs) batches"
    by auto
  have "parseWith pm u bs file =
          Some ([ProgressEvent \<lparr>stage = ascii ''parsing'', bytesRead = 0,
                                progressTotalBytes = totalBytes file, progressMessages = 0,
                                progressText = [24320, 22987, 35299, 26512, 46, 46, 46]\<rparr>,
                 MetaEvent (metaOf u (chatInfo file)),
                 MembersEvent (map snd (memberMap st))]
                @ batches
                @ [ProgressEvent \<lparr>stage = ascii ''done'', bytesRead = totalBytes file,
                                   progressTotalBytes = totalBytes file,
                                   progressMessages = messagesProcessed st,
                                   progressText = [35299, 26512, 23436, 25104]\<rparr>,
                   DoneEvent (messagesProcessed st) (length (memberMap st))],
                None)"
    using ok y unfolding parseWith_def Let_def st_def [symmetric] by simp
  then show ?thesis using e a mb mp mm by auto
qed

lemma parseWith_stream_error:
  "streamError file = Some e \<Longrightarrow> \<exists>evs. parseWith pm u bs file = Some (evs, Some e)"
  by (simp add: parseWith_def Let_def)


text \<open>The member map.\<close>

lemma mapSet_keys:
  "map fst (mapSet m k v) = (if k \<in> fst ` set m then map fst m else map fst m @ [k])"
proof (induction m)
  case Nil
  show ?case by simp
next
  case (Cons a m)
  obtain k' v' where a: "a = (k', v')" by (cases a)
  show ?case
  proof (cases "k' = k")
    case True
    then show ?thesis by (simp add: a)
  next
    case False
    then show ?thesis using Cons.IH by (simp add: a)
  qed
qed

lemma mapSet_ids:
  "list_all (\<lambda>(k, x). g x = k) m \<Longrightarrow> g v = k \<Longrightarrow> list_all (\<lambda>(k, x). g x = k) (mapSet m k v)"
  by (induction m) auto

lemma map_ids: "list_all (\<lambda>(k, x). g x = k) m \<Longrightarrow> map g (map snd m) = map fst m"
  by (induction m) auto

lemma memberMap_fold:
  assumes S: "\<And>v mm. snd (pm v mm) =
                (case sid v of None \<Rightarrow> mm
                 | Some p \<Rightarrow> mapSet mm p \<lparr>memberPlatformId = p, memberName = nm v p\<rparr>)"
    and "distinct (map fst mm0)" and "list_all (\<lambda>(k, x). memberPlatformId x = k) mm0"
  shows "set (map fst (fold (\<lambda>v mm. snd (pm v mm)) rs mm0))
           = set (map fst mm0) \<union> {p. \<exists>v \<in> set rs. sid v = Some p}
         \<and> distinct (map fst (fold (\<lambda>v mm. snd (pm v mm)) rs mm0))
         \<and> list_all (\<lambda>(k, x). memberPlatformId x = k) (fold (\<lambda>v mm. snd (pm v mm)) rs mm0)"
  using assms(2,3)
proof (induction rs arbitrary: mm0)
  case Nil
  then show ?case by simp
next
  case (Cons v rs)
  show ?case
  proof (cases "sid v")
    case None
    then have "snd (pm v mm0) = mm0" by (simp add: S)
    then show ?thesis using Cons.IH [OF Cons.prems] None by auto
  next
    case (Some p)
    then have e: "snd (pm v mm0) = mapSet mm0 p \<lparr>memberPlatformId = p, memberName = nm v p\<rparr>"
      by (simp add: S)
    have d: "distinct (map fst (snd (pm v mm0)))"
      using Cons.prems(1) by (simp add: e mapSet_keys)
    have i: "list_all (\<lambda>(k, x). memberPlatformId x = k) (snd (pm v mm0))"
      unfolding e by (rule mapSet_ids [OF Cons.prems(2)]) simp
    have k: "set (map fst (snd (pm v mm0))) = insert p (set (map fst mm0))"
      by (auto simp: e mapSet_keys)
    from Cons.IH [OF d i] k Some show ?thesis by auto
  qed
qed

lemma members_of_fold:
  assumes S: "\<And>v mm. snd (pm v mm) =
                (case sid v of None \<Rightarrow> mm
                 | Some p \<Rightarrow> mapSet mm p \<lparr>memberPlatformId = p, memberName = nm v p\<rparr>)"
  shows "memberPlatformId ` set (map snd (fold (\<lambda>v mm. snd (pm v mm)) rs []))
           = {p. \<exists>v \<in> set rs. sid v = Some p}"
    and "distinct (map memberPlatformId (map snd (fold (\<lambda>v mm. snd (pm v mm)) rs [])))"
proof -
  let ?mm = "fold (\<lambda>v mm. snd (pm v mm)) rs []"
  from memberMap_fold [where pm = pm and sid = sid and nm = nm and ?mm0.0 = "[]" and rs = rs, OF S]
  have k: "set (map fst ?mm) = {p. \<exists>v \<in> set rs. sid v = Some p}"
    and d: "distinct (map fst ?mm)"
    and i: "list_all (\<lambda>(k, x). memberPlatformId x = k) ?mm"
    by simp_all
  have eq: "map memberPlatformId (map snd ?mm) = map fst ?mm"
    using i by (rule map_ids)
  have "set (map memberPlatformId (map snd ?mm)) = {p. \<exists>v \<in> set rs. sid v = Some p}"
    unfolding eq by (rule k)
  then show "memberPlatformId ` set (map snd ?mm) = {p. \<exists>v \<in> set rs. sid v = Some p}"
    by (simp only: set_map)
  show "distinct (map memberPlatformId (map snd ?mm))"
    unfolding eq by (rule d)
qed

text \<open>processMessage of the two parsers.\<close>

lemma processMessageLegacy_fst: "fst (processMessageLegacy u r mm) = legacyMessage u r"
  by (simp add: legacyMessage_def processMessageLegacy_def Let_def split: option.splits)

lemma processMessageLegacy_snd:
  "snd (processMessageLegacy u r mm) =
     (case resolvePlatformId (lgSender r) of
        None \<Rightarrow> mm
      | Some p \<Rightarrow>
          mapSet mm p \<lparr>memberPlatformId = p,
                       memberName = (if rawName (lgSender r) \<noteq> [] then rawName (lgSender r) else p)\<rparr>)"
  by (simp add: processMessageLegacy_def Let_def split: option.splits)

lemma legacyMessage_None_iff:
  "legacyMessage u r = None \<longleftrightarrow>
     resolvePlatformId (lgSender r) = None \<or> invalidTimestamp u (TsNumber (lgTimestamp r))"
  by (simp add: legacyMessage_def processMessageLegacy_def invalidTimestamp_def Let_def
      split: option.splits)

lemma legacyMessage_sender:
  "legacyMessage u r = Some m \<Longrightarrow> resolvePlatformId (lgSender r) = Some (senderPlatformId m)"
  by (auto simp: legacyMessage_def processMessageLegacy_def Let_def split: option.splits if_splits)

lemma processMessageV4_fst: "fst (processMessageV4 u r mm) = v4Message u r"
  by (simp add: v4Message_def processMessageV4_def Let_def split: option.splits)

lemma processMessageV4_snd:
  "snd (processMessageV4 u r mm) =
     (case resolvePlatformId (v4Sender r) of
        None \<Rightarrow> mm
      | Some p \<Rightarrow>
          mapSet mm p \<lparr>memberPlatformId = p,
                       memberName = (if rawName (v4Sender r) \<noteq> [] then rawName (v4Sender r) else p)\<rparr>)"
  by (simp add: processMessageV4_def Let_def split: option.splits)

lemma v4Message_None_iff:
  "v4Message u r = None \<longleftrightarrow>
     resolvePlatformId (v4Sender r) = None \<or> invalidTimestamp u (TsString (v4Timestamp r))"
  by (simp add: v4Message_def processMessageV4_def invalidTimestamp_def Let_def
      split: option.splits)

lemma v4Message_sender:
  "v4Message u r = Some m \<Longrightarrow> resolvePlatformId (v4Sender r) = Some (senderPlatformId m)"
  by (auto simp: v4Message_def processMessageV4_def Let_def split: option.splits if_splits)


lemma map_filter_senders:
  assumes "\<And>r m. f r = Some m \<Longrightarrow> sid r = Some (senderPlatformId m)"
    and "\<forall>r \<in> set rs. sid r = Some p \<longrightarrow> f r = None"
  shows "p \<notin> senderPlatformId ` set (List.map_filter f rs)"
proof
  assume "p \<in> senderPlatformId ` set (List.map_filter f rs)"
  then obtain m where m: "m \<in> set (List.map_filter f rs)" and p: "p = senderPlatformId m"
    by blast
  from m obtain r where r: "r \<in> set rs" and fr: "f r = Some m"
    by (auto simp: List.map_filter_def)
  from assms(1) [OF fr] p have "sid r = Some p" by simp
  with assms(2) r have "f r = None" by blast
  with fr show False by simp
qed

subsection \<open>Streaming parsers: the event sequence of a run\<close>

lemma map_filter_conv:
  "List.map_filter f xs = map (the \<circ> f) (filter (\<lambda>x. f x \<noteq> None) xs)"
  by (simp add: List.map_filter_def comp_def)

lemma parseWith_summary:
  assumes f: "\<And>v mm. fst (pm v mm) = f v"
    and S: "\<And>v mm. snd (pm v mm) =
                (case sid v of None \<Rightarrow> mm
                 | Some p \<Rightarrow> mapSet mm p \<lparr>memberPlatformId = p, memberName = nm v p\<rparr>)"
    and bs: "0 < bs" and ok: "streamError file = None"
  shows "\<exists>evs ms. parseWith pm u bs file = Some (evs, None)
           \<and> emittedMessages evs = map (the \<circ> f) (filter (\<lambda>r. f r \<noteq> None) (records file))
           \<and> MembersEvent ms \<in> set evs
           \<and> memberPlatformId ` set ms = {p. \<exists>v \<in> set (records file). sid v = Some p}
           \<and> distinct (map memberPlatformId ms)
           \<and> last evs = DoneEvent (length (emittedMessages evs)) (length ms)"
proof -
  let ?ms = "map snd (fold (\<lambda>v mm. snd (pm v mm)) (records file) [])"
  from parseWith_events [where pm = pm and f = f and u = u, OF f bs ok] obtain batches where
    p: "parseWith pm u bs file =
             Some ([ProgressEvent \<lparr>stage = ascii ''parsing'', bytesRead = 0,
                                   progressTotalBytes = totalBytes file, progressMessages = 0,
                                   progressText = [24320, 22987, 35299, 26512, 46, 46, 46]\<rparr>,
                    MetaEvent (metaOf u (chatInfo file)),
                    MembersEvent ?ms]
                   @ batches
                   @ [ProgressEvent \<lparr>stage = ascii ''done'', bytesRead = totalBytes file,
                                      progressTotalBytes = totalBytes file,
                                      progressMessages = length (List.map_filter f (records file)),
                                      progressText = [35299, 26512, 23436, 25104]\<rparr>,
                      DoneEvent (length (List.map_filter f (records file)))
                        (length (fold (\<lambda>v mm. snd (pm v mm)) (records file) []))],
                   None)"
    and e: "emittedMessages batches = List.map_filter f (records file)"
    by blast
  let ?evs = "[ProgressEvent \<lparr>stage = ascii ''parsing'', bytesRead = 0,
                                   progressTotalBytes = totalBytes file, progressMessages = 0,
                                   progressText = [24320, 22987, 35299, 26512, 46, 46, 46]\<rparr>,
                    MetaEvent (metaOf u (chatInfo file)),
                    MembersEvent ?ms]
                   @ batches
                   @ [ProgressEvent \<lparr>stage = ascii ''done'', bytesRead = totalBytes file,
                                      progressTotalBytes = totalBytes file,
                                      progressMessages = length (List.map_filter f (records file)),
                                      progressText = [35299, 26512, 23436, 25104]\<rparr>,
                      DoneEvent (length (List.map_filter f (records file)))
                        (length (fold (\<lambda>v mm. snd (pm v mm)) (records file) []))]"
  have em: "emittedMessages ?evs = List.map_filter f (records file)"
    by (simp add: emittedMessages_append e)
  have la: "last ?evs = DoneEvent (length (emittedMessages ?evs)) (length ?ms)"
    by (simp only: em) simp
  have me: "MembersEvent ?ms \<in> set ?evs" by simp
  from members_of_fold [where pm = pm and sid = sid and nm = nm and rs = "records file", OF S]
  have k: "memberPlatformId ` set ?ms = {p. \<exists>v \<in> set (records file). sid v = Some p}"
    and d: "distinct (map memberPlatformId ?ms)"
    by simp_all
  from p em la me k d show ?thesis
    by (intro exI [of _ ?evs] exI [of _ ?ms]) (simp only: map_filter_conv simp_thms)
qed

lemma parseLegacy_summary:
  assumes "0 < bs" and "streamError file = None"
  shows "\<exists>evs ms. parseLegacy u bs file = Some (evs, None)
           \<and> emittedMessages evs
               = map (the \<circ> legacyMessage u) (filter (\<lambda>r. legacyMessage u r \<noteq> None) (records file))
           \<and> MembersEvent ms \<in> set evs
           \<and> memberPlatformId ` set ms
               = {p. \<exists>v \<in> set (records file). resolvePlatformId (lgSender v) = Some p}
           \<and> distinct (map memberPlatformId ms)
           \<and> last evs = DoneEvent (length (emittedMessages evs)) (length ms)"
  unfolding parseLegacy_def
  by (rule parseWith_summary [where nm = "\<lambda>r p. if rawName (lgSender r) \<noteq> [] then rawName (lgSender r) else p",
        OF processMessageLegacy_fst processMessageLegacy_snd assms])

lemma parseV4_summary:
  assumes "0 < bs" and "streamError file = None"
  shows "\<exists>evs ms. parseV4 u bs file = Some (evs, None)
           \<and> emittedMessages evs
               = map (the \<circ> v4Message u) (filter (\<lambda>r. v4Message u r \<noteq> None) (records file))
           \<and> MembersEvent ms \<in> set evs
           \<and> memberPlatformId ` set ms
               = {p. \<exists>v \<in> set (records file). resolvePlatformId (v4Sender v) = Some p}
           \<and> distinct (map memberPlatformId ms)
           \<and> last evs = DoneEvent (length (emittedMessages evs)) (length ms)"
  unfolding parseV4_def
  by (rule parseWith_summary [where nm = "\<lambda>r p. if rawName (v4Sender r) \<noteq> [] then rawName (v4Sender r) else p",
        OF processMessageV4_fst processMessageV4_snd assms])

subsection \<open>Streaming parsers: the example files\<close>

lemma specIsValidYear_examples:
  "specIsValidYear 0 1700000000" "specIsValidYear 0 1600000000" "specIsValidYear 0 1650000000"
  "\<not> specIsValidYear 0 915148800"
  "fst (localDate 0 915148800) = 1999"
  by code_simp+

lemmas example_parser_defs =
  processMessageLegacy_def processMessageV4_def legacyRecord_def v4Record_def
  resolvePlatformId_def truthy_def exampleUtils_def specUtils_def specParseTimestamp_def
  exampleReadIso_def convertMessageTypeLegacy_def convertMessageTypeV4_def typeOfResources_def
  hasFaceElement_def textContentOf_def invalidTimestamp_def ascii_def Let_def

lemma exampleLegacy_messages:
  "legacyMessage exampleUtils (legacyRecord ''1001'' ''Ann'' 1700000000000 ''later'')
     = Some \<lparr>senderPlatformId = ascii ''1001'', senderName = ascii ''Ann'',
             timestamp = 1700000000, msgType = TEXT, msgContent = Some (ascii ''later'')\<rparr>"
  "legacyMessage exampleUtils (legacyRecord ''1002'' ''Bob'' 915148800000 ''old'') = None"
  "legacyMessage exampleUtils (legacyRecord [] ''Nobody'' 1650000000000 ''lost'') = None"
  "legacyMessage exampleUtils (legacyRecord ''1001'' ''Ann'' 1600000000000 ''earlier'')
     = Some \<lparr>senderPlatformId = ascii ''1001'', senderName = ascii ''Ann'',
             timestamp = 1600000000, msgType = TEXT, msgContent = Some (ascii ''earlier'')\<rparr>"
  by (simp_all add: legacyMessage_def example_parser_defs specIsValidYear_examples)

lemma exampleLegacy_senders:
  "resolvePlatformId (lgSender (legacyRecord ''1001'' ''Ann'' ms t)) = Some (ascii ''1001'')"
  "resolvePlatformId (lgSender (legacyRecord ''1002'' ''Bob'' ms t)) = Some (ascii ''1002'')"
  "resolvePlatformId (lgSender (legacyRecord [] ''Nobody'' ms t)) = None"
  by (simp_all add: example_parser_defs)

lemma exampleV4_messages:
  "v4Message exampleUtils (v4Record ''1001'' ''Ann'' ''2023-11-14T22:13:20.000Z'' ''later'')
     = Some \<lparr>senderPlatformId = ascii ''1001'', senderName = ascii ''Ann'',
             timestamp = 1700000000, msgType = TEXT, msgContent = Some (ascii ''later'')\<rparr>"
  "v4Message exampleUtils (v4Record ''1002'' ''Bob'' ''1999-01-01T00:00:00.000Z'' ''old'') = None"
  "v4Message exampleUtils (v4Record [] ''Nobody'' ''2020-09-13T12:26:40.000Z'' ''lost'') = None"
  "v4Message exampleUtils (v4Record ''1001'' ''Ann'' ''2020-09-13T12:26:40.000Z'' ''earlier'')
     = Some \<lparr>senderPlatformId = ascii ''1001'', senderName = ascii ''Ann'',
             timestamp = 1600000000, msgType = TEXT, msgContent = Some (ascii ''earlier'')\<rparr>"
  by (simp_all add: v4Message_def example_parser_defs specIsValidYear_examples)

lemma exampleV4_senders:
  "resolvePlatformId (v4Sender (v4Record ''1001'' ''Ann'' s t)) = Some (ascii ''1001'')"
  "resolvePlatformId (v4Sender (v4Record ''1002'' ''Bob'' s t)) = Some (ascii ''1002'')"
  "resolvePlatformId (v4Sender (v4Record [] ''Nobody'' s t)) = None"
  by (simp_all add: example_parser_defs)

lemma exampleLegacy_emitted:
  "map (the \<circ> legacyMessage exampleUtils)
     (filter (\<lambda>r. legacyMessage exampleUtils r \<noteq> None) (records exampleLegacyFile))
   = [\<lparr>senderPlatformId = ascii ''1001'', senderName = ascii ''Ann'',
        timestamp = 1700000000, msgType = TEXT, msgContent = Some (ascii ''later'')\<rparr>,
      \<lparr>senderPlatformId = ascii ''1001'', senderName = ascii ''Ann'',
        timestamp = 1600000000, msgType = TEXT, msgContent = Some (ascii ''earlier'')\<rparr>]"
  by (simp add: exampleLegacyFile_def exampleLegacy_messages)

lemma exampleV4_emitted:
  "map (the \<circ> v4Message exampleUtils)
     (filter (\<lambda>r. v4Message exampleUtils r \<noteq> None) (records exampleV4File))
   = [\<lparr>senderPlatformId = ascii ''1001'', senderName = ascii ''Ann'',
        timestamp = 1700000000, msgType = TEXT, msgContent = Some (ascii ''later'')\<rparr>,
      \<lparr>senderPlatformId = ascii ''1001'', senderName = ascii ''Ann'',
        timestamp = 1600000000, msgType = TEXT, msgContent = Some (ascii ''earlier'')\<rparr>]"
  by (simp add: exampleV4File_def exampleV4_messages)

lemma mapHas_mapSet: "mapHas (mapSet m k v) k"
  by (induction m) auto

lemma processMessageLegacy_registers:
  "resolvePlatformId (lgSender r) = Some p \<Longrightarrow> mapHas (snd (processMessageLegacy u r mm)) p"
  by (simp add: processMessageLegacy_snd mapHas_mapSet)

lemma processMessageV4_registers:
  "resolvePlatformId (v4Sender r) = Some p \<Longrightarrow> mapHas (snd (processMessageV4 u r mm)) p"
  by (simp add: processMessageV4_snd mapHas_mapSet)


text \<open>
  C2, as the specification states it, fails on the code: the parsers emit the surviving
  records in file order and never sort. The legacy parser emits the two messages of the
  example file with the later timestamp first.
\<close>

theorem C2_parser_keeps_file_order_counterexample:
  "map_option (map timestamp \<circ> emittedMessages \<circ> fst)
     (parseLegacy exampleUtils 5000 exampleLegacyFile) = Some [1700000000, 1600000000]
   \<and> \<not> sorted [1700000000, 1600000000 :: int]"
proof -
  have "streamError exampleLegacyFile = None" by (simp add: exampleLegacyFile_def)
  from parseLegacy_summary [of 5000 exampleLegacyFile exampleUtils, OF _ this]
  obtain evs where p: "parseLegacy exampleUtils 5000 exampleLegacyFile = Some (evs, None)"
    and e: "emittedMessages evs
           = map (the \<circ> legacyMessage exampleUtils)
               (filter (\<lambda>r. legacyMessage exampleUtils r \<noteq> None) (records exampleLegacyFile))"
    by auto
  from e have "map timestamp (emittedMessages evs) = [1700000000, 1600000000]"
    by (simp only: exampleLegacy_emitted) simp
  with p show ?thesis by simp
qed


text \<open>
  C2 (amended). The merged message list of mergeFiles, and the message list of every
  archive it writes, is non-decreasing by timestamp. The concatenation of the message
  batches yielded by a streaming parser (batch size above 0, well-formed stream) is the
  list of the messages of the surviving records in file order; their timestamps are in
  the order of the file and are not sorted.
\<close>

theorem C2_emitted_order:
  "sorted (map clmTimestamp (mergedMessages res prs))
   \<and> (\<forall>p d. Wrote p d \<in> set (snd (mergeFiles env params)) \<longrightarrow>
         sorted (map clmTimestamp (clMessages d)))
   \<and> (0 < bs \<and> streamError lf = None \<longrightarrow>
        (\<exists>evs. parseLegacy u bs lf = Some (evs, None)
           \<and> map timestamp (emittedMessages evs)
               = map (timestamp \<circ> the \<circ> legacyMessage u)
                   (filter (\<lambda>r. legacyMessage u r \<noteq> None) (records lf))))
   \<and> (0 < bs \<and> streamError vf = None \<longrightarrow>
        (\<exists>evs. parseV4 u bs vf = Some (evs, None)
           \<and> map timestamp (emittedMessages evs)
               = map (timestamp \<circ> the \<circ> v4Message u)
                   (filter (\<lambda>r. v4Message u r \<noteq> None) (records vf))))"
proof (intro conjI allI impI)
  show "sorted (map clmTimestamp (mergedMessages res prs))"
    by (rule mergedMessages_sorted)
  show "sorted (map clmTimestamp (clMessages d))"
    if "Wrote p d \<in> set (snd (mergeFiles env params))" for p d
    using mergeFiles_wrote [OF that] mergedMessages_sorted by auto
  show "\<exists>evs. parseLegacy u bs lf = Some (evs, None)
           \<and> map timestamp (emittedMessages evs)
               = map (timestamp \<circ> the \<circ> legacyMessage u)
                   (filter (\<lambda>r. legacyMessage u r \<noteq> None) (records lf))"
    if "0 < bs \<and> streamError lf = None"
  proof -
    from that parseLegacy_summary [of bs lf u] obtain evs where
      "parseLegacy u bs lf = Some (evs, None)"
      "emittedMessages evs
         = map (the \<circ> legacyMessage u) (filter (\<lambda>r. legacyMessage u r \<noteq> None) (records lf))"
      by blast
    then show ?thesis by (simp add: comp_def)
  qed
  show "\<exists>evs. parseV4 u bs vf = Some (evs, None)
           \<and> map timestamp (emittedMessages evs)
               = map (timestamp \<circ> the \<circ> v4Message u)
                   (filter (\<lambda>r. v4Message u r \<noteq> None) (records vf))"
    if "0 < bs \<and> streamError vf = None"
  proof -
    from that parseV4_summary [of bs vf u] obtain evs where
      "parseV4 u bs vf = Some (evs, None)"
      "emittedMessages evs
         = map (the \<circ> v4Message u) (filter (\<lambda>r. v4Message u r \<noteq> None) (records vf))"
      by blast
    then show ?thesis by (simp add: comp_def)
  qed
qed

text \<open>
  Witness for C2: the archive written for the example merge is sorted by timestamp, and
  both parsers emit the timestamps of their example file in file order.
\<close>

theorem C2_emitted_order_witness:
  "sorted (map clmTimestamp (clMessages (buildChatLab exampleEnv exampleParams
       [(exampleFileA, ascii ''a.json''), (exampleFileC, ascii ''c.json'')] exampleFileA)))
   \<and> (\<exists>evs. parseLegacy exampleUtils 2 exampleLegacyFile = Some (evs, None)
          \<and> map timestamp (emittedMessages evs) = [1700000000, 1600000000])
   \<and> (\<exists>evs. parseV4 exampleUtils 2 exampleV4File = Some (evs, None)
          \<and> map timestamp (emittedMessages evs) = [1700000000, 1600000000])"
proof -
  note T = C2_emitted_order [of "[]" "[]" exampleEnv exampleParams 2 exampleLegacyFile
      exampleUtils exampleV4File]
  have w: "Wrote (ascii ''/docs/ChatLab/merged/chat_merged_20231114.chatlab.json'')
             (buildChatLab exampleEnv exampleParams
               [(exampleFileA, ascii ''a.json''), (exampleFileC, ascii ''c.json'')] exampleFileA)
           \<in> set (snd (mergeFiles exampleEnv exampleParams))"
    by (simp add: examplePath_written)
  from T w have a: "sorted (map clmTimestamp (clMessages (buildChatLab exampleEnv exampleParams
       [(exampleFileA, ascii ''a.json''), (exampleFileC, ascii ''c.json'')] exampleFileA)))"
    by blast
  have l: "(0::nat) < 2 \<and> streamError exampleLegacyFile = None"
    by (simp add: exampleLegacyFile_def)
  have el: "map (timestamp \<circ> the \<circ> legacyMessage exampleUtils)
              (filter (\<lambda>r. legacyMessage exampleUtils r \<noteq> None) (records exampleLegacyFile))
            = [1700000000, 1600000000]"
    using exampleLegacy_emitted
    by (simp only: comp_assoc map_map [symmetric]) simp
  from T l have "\<exists>evs. parseLegacy exampleUtils 2 exampleLegacyFile = Some (evs, None)
          \<and> map timestamp (emittedMessages evs)
              = map (timestamp \<circ> the \<circ> legacyMessage exampleUtils)
                  (filter (\<lambda>r. legacyMessage exampleUtils r \<noteq> None) (records exampleLegacyFile))"
    by blast
  then have b: "\<exists>evs. parseLegacy exampleUtils 2 exampleLegacyFile = Some (evs, None)
          \<and> map timestamp (emittedMessages evs) = [1700000000, 1600000000]"
    by (simp only: el)
  have v: "(0::nat) < 2 \<and> streamError exampleV4File = None"
    by (simp add: exampleV4File_def)
  have ev: "map (timestamp \<circ> the \<circ> v4Message exampleUtils)
              (filter (\<lambda>r. v4Message exampleUtils r \<noteq> None) (records exampleV4File))
            = [1700000000, 1600000000]"
    using exampleV4_emitted
    by (simp only: comp_assoc map_map [symmetric]) simp
  from T v have "\<exists>evs. parseV4 exampleUtils 2 exampleV4File = Some (evs, None)
          \<and> map timestamp (emittedMessages evs)
              = map (timestamp \<circ> the \<circ> v4Message exampleUtils)
                  (filter (\<lambda>r. v4Message exampleUtils r \<noteq> None) (records exampleV4File))"
    by blast
  then have c: "\<exists>evs. parseV4 exampleUtils 2 exampleV4File = Some (evs, None)
          \<and> map timestamp (emittedMessages evs) = [1700000000, 1600000000]"
    by (simp only: ev)
  from a b c show ?thesis by (intro conjI)
qed


subsection \<open>Streaming parsers: records that lack an object\<close>

lemma textContentOfRaw_Some: "textContentOfRaw r (Some c) = textContentOf r c"
  by (simp add: textContentOfRaw_def textContentOf_def Let_def)

lemma processRawLegacy_typed:
  "processRawLegacy u tm
     \<lparr>rlSender = Some (lgSender r), rlTimestamp = lgTimestamp r, rlType = lgType r,
      rlSystem = lgSystem r, rlRecalled = lgRecalled r, rlContent = Some (lgContent r)\<rparr> mm
   = (Inr (fst (processMessageLegacy u r mm)), snd (processMessageLegacy u r mm))"
  by (simp add: processRawLegacy_def processMessageLegacy_def textContentOfRaw_Some Let_def
      split: option.splits)

lemma processRawV4_typed:
  "processRawV4 u tm
     \<lparr>r4Sender = Some (v4Sender r), r4Timestamp = v4Timestamp r, r4MessageType = v4MessageType r,
      r4IsSystemMessage = v4IsSystemMessage r, r4IsRecalled = v4IsRecalled r,
      r4Content = Some (v4Content r)\<rparr> mm
   = (Inr (fst (processMessageV4 u r mm)), snd (processMessageV4 u r mm))"
  by (simp add: processRawV4_def processMessageV4_def textContentOfRaw_Some Let_def
      split: option.splits)
















lemma rawLegacyMessage_throws_iff:
  "(\<exists>e. rawLegacyMessage u tm v = Inl e) \<longleftrightarrow>
     rlSender v = None
     \<or> (\<exists>s. rlSender v = Some s \<and> resolvePlatformId s \<noteq> None
            \<and> \<not> invalidTimestamp u (TsNumber (rlTimestamp v))
            \<and> \<not> rlSystem v \<and> rlContent v = None)"
  by (auto simp: rawLegacyMessage_def processRawLegacy_def invalidTimestamp_def Let_def
      split: option.splits)

lemma rawV4Message_throws_iff:
  "(\<exists>e. rawV4Message u tm v = Inl e) \<longleftrightarrow>
     r4Sender v = None
     \<or> (\<exists>s. r4Sender v = Some s \<and> resolvePlatformId s \<noteq> None
            \<and> \<not> invalidTimestamp u (TsString (r4Timestamp v))
            \<and> \<not> r4IsSystemMessage v \<and> r4Content v = None)"
  by (auto simp: rawV4Message_def processRawV4_def invalidTimestamp_def Let_def
      split: option.splits)












subsection \<open>Streaming parsers: members without a message\<close>

lemma parseLegacy_silent_member:
  assumes "0 < bs" and "streamError lf = None" and "r \<in> set (records lf)"
    and "resolvePlatformId (lgSender r) = Some p"
    and "\<forall>r' \<in> set (records lf). resolvePlatformId (lgSender r') = Some p \<longrightarrow> legacyMessage u r' = None"
  shows "\<exists>evs ms. parseLegacy u bs lf = Some (evs, None)
           \<and> MembersEvent ms \<in> set evs \<and> p \<in> memberPlatformId ` set ms
           \<and> distinct (map memberPlatformId ms)
           \<and> last evs = DoneEvent (length (emittedMessages evs)) (length ms)
           \<and> p \<notin> senderPlatformId ` set (emittedMessages evs)"
proof -
  from parseLegacy_summary [OF assms(1,2), of u] obtain evs ms where
    p: "parseLegacy u bs lf = Some (evs, None)"
    and e: "emittedMessages evs
              = map (the \<circ> legacyMessage u) (filter (\<lambda>r. legacyMessage u r \<noteq> None) (records lf))"
    and m: "MembersEvent ms \<in> set evs"
    and k: "memberPlatformId ` set ms
              = {p. \<exists>v \<in> set (records lf). resolvePlatformId (lgSender v) = Some p}"
    and d: "distinct (map memberPlatformId ms)"
    and l: "last evs = DoneEvent (length (emittedMessages evs)) (length ms)"
    by blast
  have "p \<in> memberPlatformId ` set ms" using k assms(3,4) by blast
  moreover have "p \<notin> senderPlatformId ` set (emittedMessages evs)"
    unfolding e map_filter_conv [symmetric]
    by (rule map_filter_senders [where sid = "resolvePlatformId \<circ> lgSender"])
       (use assms(5) legacyMessage_sender in auto)
  ultimately show ?thesis using p m d l by blast
qed

lemma parseV4_silent_member:
  assumes "0 < bs" and "streamError vf = None" and "r \<in> set (records vf)"
    and "resolvePlatformId (v4Sender r) = Some p"
    and "\<forall>r' \<in> set (records vf). resolvePlatformId (v4Sender r') = Some p \<longrightarrow> v4Message u r' = None"
  shows "\<exists>evs ms. parseV4 u bs vf = Some (evs, None)
           \<and> MembersEvent ms \<in> set evs \<and> p \<in> memberPlatformId ` set ms
           \<and> distinct (map memberPlatformId ms)
           \<and> last evs = DoneEvent (length (emittedMessages evs)) (length ms)
           \<and> p \<notin> senderPlatformId ` set (emittedMessages evs)"
proof -
  from parseV4_summary [OF assms(1,2), of u] obtain evs ms where
    p: "parseV4 u bs vf = Some (evs, None)"
    and e: "emittedMessages evs
              = map (the \<circ> v4Message u) (filter (\<lambda>r. v4Message u r \<noteq> None) (records vf))"
    and m: "MembersEvent ms \<in> set evs"
    and k: "memberPlatformId ` set ms
              = {p. \<exists>v \<in> set (records vf). resolvePlatformId (v4Sender v) = Some p}"
    and d: "distinct (map memberPlatformId ms)"
    and l: "last evs = DoneEvent (length (emittedMessages evs)) (length ms)"
    by blast
  have "p \<in> memberPlatformId ` set ms" using k assms(3,4) by blast
  moreover have "p \<notin> senderPlatformId ` set (emittedMessages evs)"
    unfolding e map_filter_conv [symmetric]
    by (rule map_filter_senders [where sid = "resolvePlatformId \<circ> v4Sender"])
       (use assms(5) v4Message_sender in auto)
  ultimately show ?thesis using p m d l by blast
qed

text \<open>
  C10. In both streaming parsers processMessage registers the sender of a record with a
  resolvable sender identifier in the member map whatever its timestamp is. Hence, for
  every file (well-formed stream, batch size above 0) with a record whose sender is
  resolvable and whose timestamp is invalid, where no record of that sender survives, the
  sender is among the members of the members event and is counted in the memberCount of
  the done event (the number of distinct members), while no emitted message carries that
  sender.
\<close>

theorem C10_member_without_message:
  "(resolvePlatformId (lgSender r) = Some p \<longrightarrow> mapHas (snd (processMessageLegacy u r mm)) p)
   \<and> (0 < bs \<and> streamError lf = None \<and> r \<in> set (records lf)
       \<and> resolvePlatformId (lgSender r) = Some p
       \<and> invalidTimestamp u (TsNumber (lgTimestamp r))
       \<and> (\<forall>r' \<in> set (records lf).
             resolvePlatformId (lgSender r') = Some p \<longrightarrow> legacyMessage u r' = None)
      \<longrightarrow> (\<exists>evs ms. parseLegacy u bs lf = Some (evs, None)
             \<and> MembersEvent ms \<in> set evs \<and> p \<in> memberPlatformId ` set ms
             \<and> distinct (map memberPlatformId ms)
             \<and> last evs = DoneEvent (length (emittedMessages evs)) (length ms)
             \<and> p \<notin> senderPlatformId ` set (emittedMessages evs)))
   \<and> (resolvePlatformId (v4Sender r4) = Some p \<longrightarrow> mapHas (snd (processMessageV4 u r4 mm)) p)
   \<and> (0 < bs \<and> streamError vf = None \<and> r4 \<in> set (records vf)
       \<and> resolvePlatformId (v4Sender r4) = Some p
       \<and> invalidTimestamp u (TsString (v4Timestamp r4))
       \<and> (\<forall>r' \<in> set (records vf).
             resolvePlatformId (v4Sender r') = Some p \<longrightarrow> v4Message u r' = None)
      \<longrightarrow> (\<exists>evs ms. parseV4 u bs vf = Some (evs, None)
             \<and> MembersEvent ms \<in> set evs \<and> p \<in> memberPlatformId ` set ms
             \<and> distinct (map memberPlatformId ms)
             \<and> last evs = DoneEvent (length (emittedMessages evs)) (length ms)
             \<and> p \<notin> senderPlatformId ` set (emittedMessages evs)))"
proof (intro conjI impI)
  show "mapHas (snd (processMessageLegacy u r mm)) p"
    if "resolvePlatformId (lgSender r) = Some p"
    using that by (rule processMessageLegacy_registers)
  show "mapHas (snd (processMessageV4 u r4 mm)) p"
    if "resolvePlatformId (v4Sender r4) = Some p"
    using that by (rule processMessageV4_registers)
  show "\<exists>evs ms. parseLegacy u bs lf = Some (evs, None)
             \<and> MembersEvent ms \<in> set evs \<and> p \<in> memberPlatformId ` set ms
             \<and> distinct (map memberPlatformId ms)
             \<and> last evs = DoneEvent (length (emittedMessages evs)) (length ms)
             \<and> p \<notin> senderPlatformId ` set (emittedMessages evs)"
    if "0 < bs \<and> streamError lf = None \<and> r \<in> set (records lf)
       \<and> resolvePlatformId (lgSender r) = Some p
       \<and> invalidTimestamp u (TsNumber (lgTimestamp r))
       \<and> (\<forall>r' \<in> set (records lf).
             resolvePlatformId (lgSender r') = Some p \<longrightarrow> legacyMessage u r' = None)"
    using that parseLegacy_silent_member [of bs lf r p u] by blast
  show "\<exists>evs ms. parseV4 u bs vf = Some (evs, None)
             \<and> MembersEvent ms \<in> set evs \<and> p \<in> memberPlatformId ` set ms
             \<and> distinct (map memberPlatformId ms)
             \<and> last evs = DoneEvent (length (emittedMessages evs)) (length ms)
             \<and> p \<notin> senderPlatformId ` set (emittedMessages evs)"
    if "0 < bs \<and> streamError vf = None \<and> r4 \<in> set (records vf)
       \<and> resolvePlatformId (v4Sender r4) = Some p
       \<and> invalidTimestamp u (TsString (v4Timestamp r4))
       \<and> (\<forall>r' \<in> set (records vf).
             resolvePlatformId (v4Sender r') = Some p \<longrightarrow> v4Message u r' = None)"
    using that parseV4_silent_member [of bs vf r4 p u] by blast
qed


lemma exampleLegacy_events:
  "parseLegacy exampleUtils 2 exampleLegacyFile =
     Some ([ProgressEvent \<lparr>stage = ascii ''parsing'', bytesRead = 0, progressTotalBytes = 600,
                            progressMessages = 0,
                            progressText = [24320, 22987, 35299, 26512, 46, 46, 46]\<rparr>,
            MetaEvent \<lparr>metaName = ascii ''chat'', platform = ascii ''qq'',
                       chatType = ascii ''group''\<rparr>,
            MembersEvent [\<lparr>memberPlatformId = ascii ''1001'', memberName = ascii ''Ann''\<rparr>,
                          \<lparr>memberPlatformId = ascii ''1002'', memberName = ascii ''Bob''\<rparr>],
            MessagesEvent
              [\<lparr>senderPlatformId = ascii ''1001'', senderName = ascii ''Ann'',
                 timestamp = 1700000000, msgType = TEXT, msgContent = Some (ascii ''later'')\<rparr>,
               \<lparr>senderPlatformId = ascii ''1001'', senderName = ascii ''Ann'',
                 timestamp = 1600000000, msgType = TEXT, msgContent = Some (ascii ''earlier'')\<rparr>],
            ProgressEvent \<lparr>stage = ascii ''done'', bytesRead = 600, progressTotalBytes = 600,
                            progressMessages = 2,
                            progressText = [35299, 26512, 23436, 25104]\<rparr>,
            DoneEvent 2 2], None)"
  by (simp add: parseLegacy_def parseWith_def onData_def onEnd_def initialParserState_def
      metaOf_def exampleLegacyFile_def example_parser_defs specIsValidYear_examples
      yieldBatches.simps)


lemma exampleV4_events:
  "parseV4 exampleUtils 2 exampleV4File =
     Some ([ProgressEvent \<lparr>stage = ascii ''parsing'', bytesRead = 0, progressTotalBytes = 600,
                            progressMessages = 0,
                            progressText = [24320, 22987, 35299, 26512, 46, 46, 46]\<rparr>,
            MetaEvent \<lparr>metaName = ascii ''chat'', platform = ascii ''qq'',
                       chatType = ascii ''group''\<rparr>,
            MembersEvent [\<lparr>memberPlatformId = ascii ''1001'', memberName = ascii ''Ann''\<rparr>,
                          \<lparr>memberPlatformId = ascii ''1002'', memberName = ascii ''Bob''\<rparr>],
            MessagesEvent
              [\<lparr>senderPlatformId = ascii ''1001'', senderName = ascii ''Ann'',
                 timestamp = 1700000000, msgType = TEXT, msgContent = Some (ascii ''later'')\<rparr>,
               \<lparr>senderPlatformId = ascii ''1001'', senderName = ascii ''Ann'',
                 timestamp = 1600000000, msgType = TEXT, msgContent = Some (ascii ''earlier'')\<rparr>],
            ProgressEvent \<lparr>stage = ascii ''done'', bytesRead = 600, progressTotalBytes = 600,
                            progressMessages = 2,
                            progressText = [35299, 26512, 23436, 25104]\<rparr>,
            DoneEvent 2 2], None)"
  by (simp add: parseV4_def parseWith_def onData_def onEnd_def initialParserState_def
      metaOf_def exampleV4File_def example_parser_defs specIsValidYear_examples
      yieldBatches.simps)

text \<open>
  Witness for C10: Bob (1002) has one record, dated 1999. In both example files he is one
  of the two members of the members event and of the memberCount 2 of the done event, and
  none of the two emitted messages is his.
\<close>

theorem C10_member_without_message_witness:
  "mapHas (snd (processMessageLegacy exampleUtils
                  (legacyRecord ''1002'' ''Bob'' 915148800000 ''old'') [])) (ascii ''1002'')
   \<and> (\<exists>evs ms. parseLegacy exampleUtils 2 exampleLegacyFile = Some (evs, None)
          \<and> MembersEvent ms \<in> set evs \<and> ascii ''1002'' \<in> memberPlatformId ` set ms
          \<and> distinct (map memberPlatformId ms)
          \<and> last evs = DoneEvent (length (emittedMessages evs)) (length ms)
          \<and> ascii ''1002'' \<notin> senderPlatformId ` set (emittedMessages evs))
   \<and> last (fst (the (parseLegacy exampleUtils 2 exampleLegacyFile))) = DoneEvent 2 2
   \<and> mapHas (snd (processMessageV4 exampleUtils
                  (v4Record ''1002'' ''Bob'' ''1999-01-01T00:00:00.000Z'' ''old'') [])) (ascii ''1002'')
   \<and> (\<exists>evs ms. parseV4 exampleUtils 2 exampleV4File = Some (evs, None)
          \<and> MembersEvent ms \<in> set evs \<and> ascii ''1002'' \<in> memberPlatformId ` set ms
          \<and> distinct (map memberPlatformId ms)
          \<and> last evs = DoneEvent (length (emittedMessages evs)) (length ms)
          \<and> ascii ''1002'' \<notin> senderPlatformId ` set (emittedMessages evs))
   \<and> last (fst (the (parseV4 exampleUtils 2 exampleV4File))) = DoneEvent 2 2"
proof -
  note T = C10_member_without_message [of "legacyRecord ''1002'' ''Bob'' 915148800000 ''old''"
      "ascii ''1002''" exampleUtils "[]" 2 exampleLegacyFile
      "v4Record ''1002'' ''Bob'' ''1999-01-01T00:00:00.000Z'' ''old''" exampleV4File]
  have sl: "resolvePlatformId (lgSender (legacyRecord ''1002'' ''Bob'' 915148800000 ''old''))
            = Some (ascii ''1002'')"
    by (rule exampleLegacy_senders)
  have il: "invalidTimestamp exampleUtils
              (TsNumber (lgTimestamp (legacyRecord ''1002'' ''Bob'' 915148800000 ''old'')))"
    by (simp add: example_parser_defs specIsValidYear_examples)
  have hl: "0 < (2::nat) \<and> streamError exampleLegacyFile = None
      \<and> legacyRecord ''1002'' ''Bob'' 915148800000 ''old'' \<in> set (records exampleLegacyFile)
      \<and> resolvePlatformId (lgSender (legacyRecord ''1002'' ''Bob'' 915148800000 ''old''))
          = Some (ascii ''1002'')
      \<and> invalidTimestamp exampleUtils
           (TsNumber (lgTimestamp (legacyRecord ''1002'' ''Bob'' 915148800000 ''old'')))
      \<and> (\<forall>r' \<in> set (records exampleLegacyFile).
            resolvePlatformId (lgSender r') = Some (ascii ''1002'')
            \<longrightarrow> legacyMessage exampleUtils r' = None)"
    using sl il
    by (simp add: exampleLegacyFile_def exampleLegacy_messages exampleLegacy_senders ascii_def)
  have sv: "resolvePlatformId (v4Sender (v4Record ''1002'' ''Bob'' ''1999-01-01T00:00:00.000Z'' ''old''))
            = Some (ascii ''1002'')"
    by (rule exampleV4_senders)
  have iv: "invalidTimestamp exampleUtils
              (TsString (v4Timestamp (v4Record ''1002'' ''Bob'' ''1999-01-01T00:00:00.000Z'' ''old'')))"
    by (simp add: example_parser_defs specIsValidYear_examples)
  have hv: "0 < (2::nat) \<and> streamError exampleV4File = None
      \<and> v4Record ''1002'' ''Bob'' ''1999-01-01T00:00:00.000Z'' ''old'' \<in> set (records exampleV4File)
      \<and> resolvePlatformId (v4Sender (v4Record ''1002'' ''Bob'' ''1999-01-01T00:00:00.000Z'' ''old''))
          = Some (ascii ''1002'')
      \<and> invalidTimestamp exampleUtils
           (TsString (v4Timestamp (v4Record ''1002'' ''Bob'' ''1999-01-01T00:00:00.000Z'' ''old'')))
      \<and> (\<forall>r' \<in> set (records exampleV4File).
            resolvePlatformId (v4Sender r') = Some (ascii ''1002'')
            \<longrightarrow> v4Message exampleUtils r' = None)"
    using sv iv
    by (simp add: exampleV4File_def exampleV4_messages exampleV4_senders ascii_def)
  from T sl have a: "mapHas (snd (processMessageLegacy exampleUtils
                  (legacyRecord ''1002'' ''Bob'' 915148800000 ''old'') [])) (ascii ''1002'')"
    by blast
  from T hl have b: "\<exists>evs ms. parseLegacy exampleUtils 2 exampleLegacyFile = Some (evs, None)
          \<and> MembersEvent ms \<in> set evs \<and> ascii ''1002'' \<in> memberPlatformId ` set ms
          \<and> distinct (map memberPlatformId ms)
          \<and> last evs = DoneEvent (length (emittedMessages evs)) (length ms)
          \<and> ascii ''1002'' \<notin> senderPlatformId ` set (emittedMessages evs)"
    by blast
  have c: "last (fst (the (parseLegacy exampleUtils 2 exampleLegacyFile))) = DoneEvent 2 2"
    by (simp add: exampleLegacy_events)
  from T sv have d: "mapHas (snd (processMessageV4 exampleUtils
                  (v4Record ''1002'' ''Bob'' ''1999-01-01T00:00:00.000Z'' ''old'') [])) (ascii ''1002'')"
    by blast
  from T hv have e: "\<exists>evs ms. parseV4 exampleUtils 2 exampleV4File = Some (evs, None)
          \<and> MembersEvent ms \<in> set evs \<and> ascii ''1002'' \<in> memberPlatformId ` set ms
          \<and> distinct (map memberPlatformId ms)
          \<and> last evs = DoneEvent (length (emittedMessages evs)) (length ms)
          \<and> ascii ''1002'' \<notin> senderPlatformId ` set (emittedMessages evs)"
    by blast
  have f: "last (fst (the (parseV4 exampleUtils 2 exampleV4File))) = DoneEvent 2 2"
    by (simp add: exampleV4_events)
  from a b c d e f show ?thesis by (intro conjI)
qed

end
